theory Spec2Isabelle
  imports Complex_Main "HOL-Library.Word" "HOL-Library.AList"
begin

section \<open>Tags: packed key/value records (osmium/osm/tag.hpp)\<close>

subsection \<open>Memory and C strings\<close>

text \<open>
  A buffer is a finite run of bytes; an address is an offset into it. A read at or past
  the end of the buffer is outside what the program owns: the model returns \<open>None\<close>
  there, for every function that scans.
\<close>

type_synonym memory = "char list"
type_synonym addr = nat

abbreviation NUL :: char where
  "NUL \<equiv> CHR 0x00"

text \<open>
  \<^verbatim>\<open>std::strchr(ptr, 0)\<close>: the address of the first null byte at or after \<open>ptr\<close>. The
  scan has no bound of its own.
\<close>

function strchr0 :: "memory \<Rightarrow> addr \<Rightarrow> addr option" where
  "strchr0 mem ptr =
     (if length mem \<le> ptr then None
      else if mem ! ptr = NUL then Some ptr
      else strchr0 mem (Suc ptr))"
  by pat_completeness auto
termination
  by (relation "measure (\<lambda>(mem, ptr). length mem - ptr)") auto

declare strchr0.simps [simp del]

text \<open>
  \<^verbatim>\<open>strcmp(s1, s2)\<close>: compares the two strings byte by byte up to the first difference
  or the null byte of both; 0 when they are equal.
\<close>

function strcmp :: "memory \<Rightarrow> addr \<Rightarrow> addr \<Rightarrow> int option" where
  "strcmp mem s1 s2 =
     (if length mem \<le> s1 \<or> length mem \<le> s2 then None
      else if mem ! s1 \<noteq> mem ! s2 then Some (of_char (mem ! s1) - of_char (mem ! s2))
      else if mem ! s1 = NUL then Some 0
      else strcmp mem (Suc s1) (Suc s2))"
  by pat_completeness auto
termination
  by (relation "measure (\<lambda>(mem, s1, s2). length mem - s1)") auto

declare strcmp.simps [simp del]

text \<open>
  What a \<^verbatim>\<open>const char*\<close> denotes: the bytes from the address up to, and without, the
  first null byte.
\<close>

definition c_str :: "memory \<Rightarrow> addr \<Rightarrow> string option" where
  "c_str mem p =
     (case strchr0 mem p of
        None \<Rightarrow> None
      | Some q \<Rightarrow> Some (take (q - p) (drop p mem)))"

subsection \<open>class Tag\<close>

text \<open>
  Modelled from the spec: \<^verbatim>\<open>ItemHelper::data()\<close> of osmium/memory/collection.hpp, which
  is not among the sources. A record is referenced in place: its data starts at the
  record's own address.
\<close>

definition data :: "addr \<Rightarrow> addr" where
  "data this = this"

definition Tag_after_null :: "memory \<Rightarrow> addr \<Rightarrow> addr option" where
  "Tag_after_null mem ptr = map_option Suc (strchr0 mem ptr)"

definition Tag_next :: "memory \<Rightarrow> addr \<Rightarrow> addr option" where
  "Tag_next mem this = Option.bind (Tag_after_null mem (data this)) (Tag_after_null mem)"

definition Tag_key :: "addr \<Rightarrow> addr" where
  "Tag_key this = data this"

definition Tag_value :: "memory \<Rightarrow> addr \<Rightarrow> addr option" where
  "Tag_value mem this = Tag_after_null mem (data this)"

text \<open>
  Modelled from the spec: the producer of tag records (the tag-list builder) is not among
  the sources. A key/value pair is encoded as two consecutive null-terminated byte
  strings, key first, with no length prefix.
\<close>

definition encode_tag :: "string \<times> string \<Rightarrow> memory" where
  "encode_tag kv = fst kv @ [NUL] @ snd kv @ [NUL]"

subsection \<open>Sequences of tags\<close>

text \<open>
  Modelled from the spec: \<^verbatim>\<open>Collection<Tag>\<close> of osmium/memory/collection.hpp, which is
  not among the sources. Of it the model keeps what the lookup reads: the address of the
  first record (\<^verbatim>\<open>cbegin()\<close>) and the stored end boundary (\<^verbatim>\<open>cend()\<close>).
\<close>

record Collection =
  cbegin :: addr
  cend :: addr

text \<open>
  Modelled from the spec: appending writes each record's encoded bytes at the write
  cursor, one record after the other.
\<close>

definition encode_tags :: "(string \<times> string) list \<Rightarrow> memory" where
  "encode_tags kvs = concat (map encode_tag kvs)"

text \<open>A scan moves forward and stays inside the buffer; the loops below end for that reason.\<close>

lemma strchr0_Some:
  "strchr0 mem p = Some q \<Longrightarrow> p \<le> q \<and> q < length mem \<and> mem ! q = NUL"
proof (induction mem p rule: strchr0.induct)
  case (1 mem ptr)
  show ?case
  proof (cases "length mem \<le> ptr")
    case True
    with "1.prems" show ?thesis by (simp add: strchr0.simps)
  next
    case False
    show ?thesis
    proof (cases "mem ! ptr = NUL")
      case True
      with False "1.prems" show ?thesis by (simp add: strchr0.simps)
    next
      case nz: False
      with False "1.prems" have "strchr0 mem (Suc ptr) = Some q"
        by (simp add: strchr0.simps)
      with "1.IH" False nz show ?thesis by fastforce
    qed
  qed
qed

lemma Tag_next_Some:
  "Tag_next mem p = Some n \<Longrightarrow> p < n \<and> n \<le> length mem"
  by (auto simp: Tag_next_def Tag_after_null_def data_def bind_eq_Some_conv
      dest!: strchr0_Some)

text \<open>
  Modelled from the spec: forward iteration (\<^verbatim>\<open>CollectionIterator\<close>, not among the
  sources). The next record starts where \<open>Tag::next\<close> of the current one says; the
  iteration ends when the address equals the end boundary. The result lists the
  addresses of the records visited, in the order of the visits.
\<close>

function iterate :: "memory \<Rightarrow> addr \<Rightarrow> addr \<Rightarrow> addr list option" where
  "iterate mem it stop =
     (if it = stop then Some []
      else (case Tag_next mem it of
              None \<Rightarrow> None
            | Some n \<Rightarrow> map_option ((#) it) (iterate mem n stop)))"
  by pat_completeness auto
termination
  by (relation "measure (\<lambda>(mem, it, stop). Suc (length mem) - it)")
    (auto dest!: Tag_next_Some)

declare iterate.simps [simp del]

text \<open>
  \<^verbatim>\<open>std::find_if(cbegin(), cend(), [key](const Tag& tag) { return !strcmp(tag.key(), key); })\<close>:
  the first iterator in the range whose tag has the key, or the end of the range.
\<close>

function find_if :: "memory \<Rightarrow> addr \<Rightarrow> addr \<Rightarrow> addr \<Rightarrow> addr option" where
  "find_if mem first stop key =
     (if first = stop then Some stop
      else (case strcmp mem (Tag_key first) key of
              None \<Rightarrow> None
            | Some r \<Rightarrow>
                if r = 0 then Some first
                else (case Tag_next mem first of
                        None \<Rightarrow> None
                      | Some n \<Rightarrow> find_if mem n stop key)))"
  by pat_completeness auto
termination
  by (relation "measure (\<lambda>(mem, first, stop, key). Suc (length mem) - first)")
    (auto dest!: Tag_next_Some)

declare find_if.simps [simp del]

datatype pointer = nullptr | Ptr addr

definition get_value_by_key :: "memory \<Rightarrow> Collection \<Rightarrow> addr \<Rightarrow> pointer option" where
  "get_value_by_key mem this key =
     (case find_if mem (cbegin this) (cend this) key of
        None \<Rightarrow> None
      | Some result \<Rightarrow>
          if result = cend this then Some nullptr
          else map_option Ptr (Tag_value mem result))"

text \<open>
  The layout of a sequence written from a list of pairs: the first record starts at the
  sequence's start, each further record where the record before it ends.
\<close>

fun record_starts :: "addr \<Rightarrow> (string \<times> string) list \<Rightarrow> addr list" where
  "record_starts a [] = []"
| "record_starts a (kv # kvs) = a # record_starts (a + length (encode_tag kv)) kvs"

text \<open>Well-formed content: no key and no value has a null byte inside.\<close>

definition well_formed :: "(string \<times> string) list \<Rightarrow> bool" where
  "well_formed kvs = list_all (\<lambda>kv. NUL \<notin> set (fst kv) \<and> NUL \<notin> set (snd kv)) kvs"

text \<open>
  What a visit of the record at \<open>a\<close> finds when the record is the pair \<open>kv\<close>: the
  record lies before the end boundary, \<open>Tag::next\<close> is the record's address plus its
  scanned size, and its key and value read back as written.
\<close>

definition visits :: "memory \<Rightarrow> addr \<Rightarrow> addr \<Rightarrow> string \<times> string \<Rightarrow> bool" where
  "visits mem stop a kv \<longleftrightarrow>
     a < stop
     \<and> Tag_next mem a = Some (a + (length (fst kv) + 1 + length (snd kv) + 1))
     \<and> a + (length (fst kv) + 1 + length (snd kv) + 1) \<le> stop
     \<and> c_str mem (Tag_key a) = Some (fst kv)
     \<and> Option.bind (Tag_value mem a) (c_str mem) = Some (snd kv)"

section \<open>Files behind memory mappings (osmium/detail/typed_mmap.hpp)\<close>

text \<open>
  \<^verbatim>\<open>size_t\<close> is an unsigned and \<^verbatim>\<open>off_t\<close> a signed 64-bit integer (Linux, LP64):
  both are 64-bit words, \<open>unat\<close> reads the first and \<open>sint\<close> the second. Arithmetic
  on \<^verbatim>\<open>size_t\<close> wraps around. \<open>sizeof_T\<close> stands for \<^verbatim>\<open>sizeof(T)\<close> of the template
  parameter; it is never 0.
\<close>

type_synonym size_t = "64 word"
type_synonym off_t = "64 word"
type_synonym fd = int

text \<open>
  The exceptions of the program. The spec calls \<^verbatim>\<open>std::system_error\<close> a MappingError,
  \<^verbatim>\<open>std::length_error\<close> a SizeMismatchError and \<^verbatim>\<open>osmium::geometry_error\<close> a
  GeometryError.
\<close>

datatype exception =
  system_error string
| length_error string
| geometry_error string
| invalid_location string

text \<open>
  The operating system as the two file operations see it: the byte length of the file
  behind each open descriptor (\<open>None\<close> for a descriptor that is not an open file), and
  the resizes the system refuses for a reason of its own (no space, a read-only
  descriptor, an I/O error).
\<close>

record os_state =
  file_length :: "fd \<Rightarrow> nat option"
  resize_refused :: "fd \<Rightarrow> nat \<Rightarrow> bool"

text \<open>
  \<^verbatim>\<open>fstat(fd, &s)\<close>, of which the program reads \<^verbatim>\<open>s.st_size\<close>. It fails (\<open>None\<close>) on
  a descriptor that is not open and on a length that \<^verbatim>\<open>off_t\<close> cannot hold.
\<close>

definition fstat :: "os_state \<Rightarrow> fd \<Rightarrow> off_t option" where
  "fstat os fd =
     (case file_length os fd of
        None \<Rightarrow> None
      | Some len \<Rightarrow> if len < 2 ^ 63 then Some (word_of_nat len) else None)"

text \<open>
  \<^verbatim>\<open>ftruncate(fd, length)\<close>: sets the file's length, cutting the file or extending it.
  It fails (\<open>None\<close>, the file unchanged) on a descriptor that is not open, on a
  negative length and where the system refuses.
\<close>

definition ftruncate :: "os_state \<Rightarrow> fd \<Rightarrow> off_t \<Rightarrow> os_state option" where
  "ftruncate os fd len =
     (if file_length os fd = None \<or> sint len < 0 \<or> resize_refused os fd (nat (sint len))
      then None
      else Some (os\<lparr>file_length := (file_length os)(fd \<mapsto> nat (sint len))\<rparr>))"

text \<open>
  \<^verbatim>\<open>typed_mmap<T>::file_size(fd)\<close>. In \<^verbatim>\<open>s.st_size % sizeof(T)\<close> the signed length is
  converted to \<^verbatim>\<open>size_t\<close>, so remainder and quotient are the unsigned ones.
\<close>

definition file_size :: "size_t \<Rightarrow> os_state \<Rightarrow> fd \<Rightarrow> exception + size_t" where
  "file_size sizeof_T os fd =
     (case fstat os fd of
        None \<Rightarrow> Inl (system_error ''fstat failed'')
      | Some st_size \<Rightarrow>
          if st_size mod sizeof_T \<noteq> 0
          then Inl (length_error ''file size has to be multiple of object size'')
          else Inr (st_size div sizeof_T))"

text \<open>
  \<^verbatim>\<open>typed_mmap<T>::grow_file(new_size, fd)\<close>. The result is the exception thrown, if
  any, and the state of the system after the call.
\<close>

definition grow_file :: "size_t \<Rightarrow> size_t \<Rightarrow> os_state \<Rightarrow> fd \<Rightarrow> (exception + unit) \<times> os_state" where
  "grow_file sizeof_T new_size os fd =
     (case file_size sizeof_T os fd of
        Inl e \<Rightarrow> (Inl e, os)
      | Inr n \<Rightarrow>
          if n < new_size
          then (case ftruncate os fd (sizeof_T * new_size) of
                  None \<Rightarrow> (Inl (system_error ''ftruncate failed''), os)
                | Some os' \<Rightarrow> (Inr (), os'))
          else (Inr (), os))"

text \<open>
  A state to run the operations in: descriptor 3 is a file of 8 bytes, descriptor 4 a
  file of 13 bytes, no other descriptor is open, and the system refuses no resize.
\<close>

definition os0 :: os_state where
  "os0 = \<lparr>file_length = (\<lambda>_. None)(3 \<mapsto> 8, 4 \<mapsto> 13), resize_refused = (\<lambda>_ _. False)\<rparr>"

section \<open>Reporting problems through OGR (osmium/area/problem_reporter_ogr.hpp)\<close>

subsection \<open>Objects reported\<close>

text \<open>
  \<^verbatim>\<open>osmium::object_id_type\<close> is a signed 64-bit integer: a 64-bit word read by
  \<open>sint\<close>.
\<close>

type_synonym object_id_type = "64 word"

text \<open>
  Modelled from the spec: \<^verbatim>\<open>Location\<close>, \<^verbatim>\<open>NodeRef\<close> and \<^verbatim>\<open>Way\<close> of osmium/osm, which
  are not among the sources. A location is a pair of coordinates, a node reference an
  identifier with a location, a way an identifier with its vertex sequence.
\<close>

record Location =
  loc_x :: int
  loc_y :: int

record NodeRef =
  NodeRef_ref :: object_id_type
  NodeRef_location :: Location

record Way =
  Way_id :: object_id_type
  Way_nodes :: "NodeRef list"

subsection \<open>The datastore: geometries, features and layers\<close>

text \<open>
  Modelled from the spec: the vector datastore (gdalcpp.hpp and OGR, not among the
  sources). A layer has a name, a geometry type, its field definitions in the order of
  their definition, and the features added to it, in the order of their addition. A
  feature has a geometry and the values set for its fields, by field name; setting a
  field again replaces its value. A coordinate is the number a \<^verbatim>\<open>double\<close> stands for.
\<close>

type_synonym coordinate = real

datatype geometry =
  OGRPoint coordinate coordinate
| OGRLineString "(coordinate \<times> coordinate) list"

datatype OGRwkbGeometryType = wkbPoint | wkbLineString

datatype OGRFieldType = OFTString | OFTInteger | OFTReal

datatype field_value =
  FString string
| FInteger "32 word"
| FReal real

record field_defn =
  field_name :: string
  field_type :: OGRFieldType
  field_width :: int
  field_precision :: int

record Feature =
  feature_geometry :: geometry
  feature_fields :: "(string \<times> field_value) list"

record Layer =
  layer_name :: string
  layer_type :: OGRwkbGeometryType
  layer_fields :: "field_defn list"
  layer_features :: "Feature list"

definition Layer_ctor :: "string \<Rightarrow> OGRwkbGeometryType \<Rightarrow> Layer" where
  "Layer_ctor name type =
     \<lparr>layer_name = name, layer_type = type, layer_fields = [], layer_features = []\<rparr>"

definition add_field :: "Layer \<Rightarrow> string \<Rightarrow> OGRFieldType \<Rightarrow> int \<Rightarrow> int \<Rightarrow> Layer" where
  "add_field layer name type width precision =
     layer\<lparr>layer_fields := layer_fields layer
       @ [\<lparr>field_name = name, field_type = type, field_width = width,
            field_precision = precision\<rparr>]\<rparr>"

definition Feature_ctor :: "geometry \<Rightarrow> Feature" where
  "Feature_ctor geom = \<lparr>feature_geometry = geom, feature_fields = []\<rparr>"

definition set_field :: "Feature \<Rightarrow> string \<Rightarrow> field_value \<Rightarrow> Feature" where
  "set_field feature name v =
     feature\<lparr>feature_fields := AList.update name v (feature_fields feature)\<rparr>"

definition get_field :: "Feature \<Rightarrow> string \<Rightarrow> field_value option" where
  "get_field feature name = map_of (feature_fields feature) name"

definition add_to_layer :: "Layer \<Rightarrow> Feature \<Rightarrow> Layer" where
  "add_to_layer layer feature = layer\<lparr>layer_features := layer_features layer @ [feature]\<rparr>"

text \<open>
  The code that builds geometries is not among the sources either; the reporter takes
  it as given. \<open>create_point\<close> and \<open>create_linestring\<close> are the two operations of
  \<^verbatim>\<open>m_ogr_factory\<close>, \<open>lon_lat\<close> is \<^verbatim>\<open>Location::lon()\<close> with \<^verbatim>\<open>Location::lat()\<close>. Each
  may throw.
\<close>

record geometry_builders =
  create_point :: "Location \<Rightarrow> exception + geometry"
  create_linestring :: "Way \<Rightarrow> exception + geometry"
  lon_lat :: "Location \<Rightarrow> exception + coordinate \<times> coordinate"

subsection \<open>Conversions of identifiers\<close>

text \<open>
  \<^verbatim>\<open>int32_t(id)\<close> keeps the low 32 bits of the identifier. \<^verbatim>\<open>double(id)\<close> is the
  nearest number with at most 53 significant bits, ties going to the even one (IEEE 754
  binary64 in the default rounding mode); every \<^verbatim>\<open>int64_t\<close> lies in the range of
  \<^verbatim>\<open>double\<close>.
\<close>

definition int32_t :: "64 word \<Rightarrow> 32 word" where
  "int32_t v = ucast v"

fun bit_length :: "nat \<Rightarrow> nat" where
  "bit_length n = (if n = 0 then 0 else Suc (bit_length (n div 2)))"

declare bit_length.simps [simp del]

definition round_half_even :: "nat \<Rightarrow> nat \<Rightarrow> nat" where
  "round_half_even e n =
     (let q = n div 2 ^ e; r = n mod 2 ^ e
      in if 2 * r < 2 ^ e \<or> (2 * r = 2 ^ e \<and> even q) then q * 2 ^ e else (q + 1) * 2 ^ e)"

definition double_of_nat :: "nat \<Rightarrow> nat" where
  "double_of_nat n = (if bit_length n \<le> 53 then n else round_half_even (bit_length n - 53) n)"

definition double_of_int64 :: "object_id_type \<Rightarrow> real" where
  "double_of_int64 v =
     (if sint v < 0 then - real (double_of_nat (nat (- sint v)))
      else real (double_of_nat (nat (sint v))))"

subsection \<open>class ProblemReporterOGR\<close>

text \<open>
  Modelled from the spec: the base class \<^verbatim>\<open>ProblemReporter\<close> of
  osmium/area/problem_reporter.hpp, which is not among the sources. It holds the object
  a report is about: its type, its identifier and its number of nodes. The type is kept
  as the character \<^verbatim>\<open>item_type_to_char\<close> gives for it.
\<close>

record ProblemReporter =
  m_object_type :: char
  m_object_id :: object_id_type
  m_nodes :: size_t

record ProblemReporterOGR = ProblemReporter +
  m_layer_perror :: Layer
  m_layer_lerror :: Layer
  m_layer_ways :: Layer

text \<open>The result of a member function: the exception that escapes it, if any, and the reporter after it.\<close>

type_synonym outcome = "(exception + unit) \<times> ProblemReporterOGR"

definition set_object :: "ProblemReporterOGR \<Rightarrow> Feature \<Rightarrow> Feature" where
  "set_object this feature =
     (let feature = set_field feature ''obj_type'' (FString [m_object_type this]);
          feature = set_field feature ''obj_id'' (FInteger (int32_t (m_object_id this)));
          feature = set_field feature ''nodes'' (FInteger (int32_t (m_nodes this)))
      in feature)"

definition write_point ::
  "geometry_builders \<Rightarrow> ProblemReporterOGR \<Rightarrow> string \<Rightarrow> object_id_type \<Rightarrow> object_id_type
    \<Rightarrow> Location \<Rightarrow> outcome" where
  "write_point env this problem_type id1 id2 location =
     (case create_point env location of
        Inl e \<Rightarrow> (Inl e, this)
      | Inr point \<Rightarrow>
          (let feature = Feature_ctor point;
               feature = set_object this feature;
               feature = set_field feature ''id1'' (FReal (double_of_int64 id1));
               feature = set_field feature ''id2'' (FReal (double_of_int64 id2));
               feature = set_field feature ''problem'' (FString problem_type)
           in (Inr (), this\<lparr>m_layer_perror := add_to_layer (m_layer_perror this) feature\<rparr>)))"

definition write_line ::
  "geometry_builders \<Rightarrow> ProblemReporterOGR \<Rightarrow> string \<Rightarrow> object_id_type \<Rightarrow> object_id_type
    \<Rightarrow> Location \<Rightarrow> Location \<Rightarrow> outcome" where
  "write_line env this problem_type id1 id2 loc1 loc2 =
     (case lon_lat env loc1 of
        Inl e \<Rightarrow> (Inl e, this)
      | Inr p1 \<Rightarrow>
          (case lon_lat env loc2 of
             Inl e \<Rightarrow> (Inl e, this)
           | Inr p2 \<Rightarrow>
               (let feature = Feature_ctor (OGRLineString [p1, p2]);
                    feature = set_object this feature;
                    feature = set_field feature ''id1'' (FReal (double_of_int64 id1));
                    feature = set_field feature ''id2'' (FReal (double_of_int64 id2));
                    feature = set_field feature ''problem'' (FString problem_type)
                in (Inr (), this\<lparr>m_layer_lerror := add_to_layer (m_layer_lerror this) feature\<rparr>))))"

text \<open>
  The constructor: the base class part is built first, then the three layers, then the
  fields of each layer. \<^verbatim>\<open>add_field\<close> takes precision 0 where the code gives none.
\<close>

definition ProblemReporterOGR_ctor :: "ProblemReporter \<Rightarrow> ProblemReporterOGR" where
  "ProblemReporterOGR_ctor base =
     (let perror = Layer_ctor ''perrors'' wkbPoint;
          lerror = Layer_ctor ''lerrors'' wkbLineString;
          ways = Layer_ctor ''ways'' wkbLineString;
          perror = add_field perror ''obj_type'' OFTString 1 0;
          perror = add_field perror ''obj_id'' OFTInteger 10 0;
          perror = add_field perror ''nodes'' OFTInteger 8 0;
          perror = add_field perror ''id1'' OFTReal 12 1;
          perror = add_field perror ''id2'' OFTReal 12 1;
          perror = add_field perror ''problem'' OFTString 30 0;
          lerror = add_field lerror ''obj_type'' OFTString 1 0;
          lerror = add_field lerror ''obj_id'' OFTInteger 10 0;
          lerror = add_field lerror ''nodes'' OFTInteger 8 0;
          lerror = add_field lerror ''id1'' OFTReal 12 1;
          lerror = add_field lerror ''id2'' OFTReal 12 1;
          lerror = add_field lerror ''problem'' OFTString 30 0;
          ways = add_field ways ''obj_type'' OFTString 1 0;
          ways = add_field ways ''obj_id'' OFTInteger 10 0;
          ways = add_field ways ''way_id'' OFTInteger 10 0;
          ways = add_field ways ''nodes'' OFTInteger 8 0
      in \<lparr>m_object_type = m_object_type base, m_object_id = m_object_id base,
          m_nodes = m_nodes base,
          m_layer_perror = perror, m_layer_lerror = lerror, m_layer_ways = ways\<rparr>)"

text \<open>The layers of a reporter, in the order of their declaration.\<close>

definition layers :: "ProblemReporterOGR \<Rightarrow> Layer list" where
  "layers this = [m_layer_perror this, m_layer_lerror this, m_layer_ways this]"

text \<open>One call after another: the second runs when no exception escaped the first.\<close>

definition and_then :: "outcome \<Rightarrow> (ProblemReporterOGR \<Rightarrow> outcome) \<Rightarrow> outcome" where
  "and_then r f = (case r of (Inl e, this) \<Rightarrow> (Inl e, this) | (Inr u, this) \<Rightarrow> f this)"

definition report_duplicate_node ::
  "geometry_builders \<Rightarrow> ProblemReporterOGR \<Rightarrow> object_id_type \<Rightarrow> object_id_type \<Rightarrow> Location
    \<Rightarrow> outcome" where
  "report_duplicate_node env this node_id1 node_id2 location =
     write_point env this ''duplicate_node'' node_id1 node_id2 location"

definition report_touching_ring ::
  "geometry_builders \<Rightarrow> ProblemReporterOGR \<Rightarrow> object_id_type \<Rightarrow> Location \<Rightarrow> outcome" where
  "report_touching_ring env this node_id location =
     write_point env this ''touching_ring'' node_id 0 location"

definition report_intersection ::
  "geometry_builders \<Rightarrow> ProblemReporterOGR \<Rightarrow> object_id_type \<Rightarrow> Location \<Rightarrow> Location
    \<Rightarrow> object_id_type \<Rightarrow> Location \<Rightarrow> Location \<Rightarrow> Location \<Rightarrow> outcome" where
  "report_intersection env this way1_id way1_seg_start way1_seg_end
       way2_id way2_seg_start way2_seg_end intersection =
     and_then (write_point env this ''intersection'' way1_id way2_id intersection) (\<lambda>this.
     and_then (write_line env this ''intersection'' way1_id way2_id way1_seg_start way1_seg_end)
       (\<lambda>this.
     write_line env this ''intersection'' way2_id way1_id way2_seg_start way2_seg_end))"

definition report_duplicate_segment ::
  "geometry_builders \<Rightarrow> ProblemReporterOGR \<Rightarrow> NodeRef \<Rightarrow> NodeRef \<Rightarrow> outcome" where
  "report_duplicate_segment env this nr1 nr2 =
     write_line env this ''duplicate_segment'' (NodeRef_ref nr1) (NodeRef_ref nr2)
       (NodeRef_location nr1) (NodeRef_location nr2)"

definition report_overlapping_segment ::
  "geometry_builders \<Rightarrow> ProblemReporterOGR \<Rightarrow> NodeRef \<Rightarrow> NodeRef \<Rightarrow> outcome" where
  "report_overlapping_segment env this nr1 nr2 =
     write_line env this ''overlapping_segment'' (NodeRef_ref nr1) (NodeRef_ref nr2)
       (NodeRef_location nr1) (NodeRef_location nr2)"

text \<open>The way is passed by pointer and may be null.\<close>

definition report_ring_not_closed ::
  "geometry_builders \<Rightarrow> ProblemReporterOGR \<Rightarrow> NodeRef \<Rightarrow> Way option \<Rightarrow> outcome" where
  "report_ring_not_closed env this nr way =
     write_point env this ''ring_not_closed'' (NodeRef_ref nr)
       (case way of Some w \<Rightarrow> Way_id w | None \<Rightarrow> 0) (NodeRef_location nr)"

definition report_role_should_be_outer ::
  "geometry_builders \<Rightarrow> ProblemReporterOGR \<Rightarrow> object_id_type \<Rightarrow> Location \<Rightarrow> Location
    \<Rightarrow> outcome" where
  "report_role_should_be_outer env this way_id seg_start seg_end =
     write_line env this ''role_should_be_outer'' way_id 0 seg_start seg_end"

definition report_role_should_be_inner ::
  "geometry_builders \<Rightarrow> ProblemReporterOGR \<Rightarrow> object_id_type \<Rightarrow> Location \<Rightarrow> Location
    \<Rightarrow> outcome" where
  "report_role_should_be_inner env this way_id seg_start seg_end =
     write_line env this ''role_should_be_inner'' way_id 0 seg_start seg_end"

text \<open>
  The three reports of a way as a line problem differ in the problem label only. In
  each, \<^verbatim>\<open>catch (const osmium::geometry_error&)\<close> ends the call normally; any other
  exception escapes.
\<close>

definition report_way_in_multiple_rings ::
  "geometry_builders \<Rightarrow> ProblemReporterOGR \<Rightarrow> Way \<Rightarrow> outcome" where
  "report_way_in_multiple_rings env this way =
     (if length (Way_nodes way) < 2 then (Inr (), this)
      else (case create_linestring env way of
              Inl (geometry_error msg) \<Rightarrow> (Inr (), this)
            | Inl e \<Rightarrow> (Inl e, this)
            | Inr linestring \<Rightarrow>
                (let feature = Feature_ctor linestring;
                     feature = set_object this feature;
                     feature = set_field feature ''id1'' (FInteger (int32_t (Way_id way)));
                     feature = set_field feature ''id2'' (FInteger 0);
                     feature = set_field feature ''problem'' (FString ''way_in_multiple_rings'')
                 in (Inr (),
                     this\<lparr>m_layer_lerror := add_to_layer (m_layer_lerror this) feature\<rparr>))))"

definition report_inner_with_same_tags ::
  "geometry_builders \<Rightarrow> ProblemReporterOGR \<Rightarrow> Way \<Rightarrow> outcome" where
  "report_inner_with_same_tags env this way =
     (if length (Way_nodes way) < 2 then (Inr (), this)
      else (case create_linestring env way of
              Inl (geometry_error msg) \<Rightarrow> (Inr (), this)
            | Inl e \<Rightarrow> (Inl e, this)
            | Inr linestring \<Rightarrow>
                (let feature = Feature_ctor linestring;
                     feature = set_object this feature;
                     feature = set_field feature ''id1'' (FInteger (int32_t (Way_id way)));
                     feature = set_field feature ''id2'' (FInteger 0);
                     feature = set_field feature ''problem'' (FString ''inner_with_same_tags'')
                 in (Inr (),
                     this\<lparr>m_layer_lerror := add_to_layer (m_layer_lerror this) feature\<rparr>))))"

definition report_duplicate_way ::
  "geometry_builders \<Rightarrow> ProblemReporterOGR \<Rightarrow> Way \<Rightarrow> outcome" where
  "report_duplicate_way env this way =
     (if length (Way_nodes way) < 2 then (Inr (), this)
      else (case create_linestring env way of
              Inl (geometry_error msg) \<Rightarrow> (Inr (), this)
            | Inl e \<Rightarrow> (Inl e, this)
            | Inr linestring \<Rightarrow>
                (let feature = Feature_ctor linestring;
                     feature = set_object this feature;
                     feature = set_field feature ''id1'' (FInteger (int32_t (Way_id way)));
                     feature = set_field feature ''id2'' (FInteger 0);
                     feature = set_field feature ''problem'' (FString ''duplicate_way'')
                 in (Inr (),
                     this\<lparr>m_layer_lerror := add_to_layer (m_layer_lerror this) feature\<rparr>))))"

definition report_way :: "geometry_builders \<Rightarrow> ProblemReporterOGR \<Rightarrow> Way \<Rightarrow> outcome" where
  "report_way env this way =
     (if Way_nodes way = [] then (Inr (), this)
      else if length (Way_nodes way) = 1
      then (let first_nr = Way_nodes way ! 0
            in write_point env this ''single_node_in_way'' (Way_id way) (NodeRef_ref first_nr)
                 (NodeRef_location first_nr))
      else (case create_linestring env way of
              Inl (geometry_error msg) \<Rightarrow> (Inr (), this)
            | Inl e \<Rightarrow> (Inl e, this)
            | Inr linestring \<Rightarrow>
                (let feature = Feature_ctor linestring;
                     feature = set_object this feature;
                     feature = set_field feature ''way_id'' (FInteger (int32_t (Way_id way)))
                 in (Inr (),
                     this\<lparr>m_layer_ways := add_to_layer (m_layer_ways this) feature\<rparr>))))"

subsection \<open>Calls of the reporter\<close>

text \<open>
  The assembler reaches the reporter through the virtual functions of the base class.
  A call is one of the twelve functions with its arguments.
\<close>

datatype call =
  Duplicate_node object_id_type object_id_type Location
| Touching_ring object_id_type Location
| Intersection object_id_type Location Location object_id_type Location Location Location
| Duplicate_segment NodeRef NodeRef
| Overlapping_segment NodeRef NodeRef
| Ring_not_closed NodeRef "Way option"
| Role_should_be_outer object_id_type Location Location
| Role_should_be_inner object_id_type Location Location
| Way_in_multiple_rings Way
| Inner_with_same_tags Way
| Duplicate_way Way
| Report_way Way

fun report :: "geometry_builders \<Rightarrow> ProblemReporterOGR \<Rightarrow> call \<Rightarrow> outcome" where
  "report env this (Duplicate_node id1 id2 loc) = report_duplicate_node env this id1 id2 loc"
| "report env this (Touching_ring id1 loc) = report_touching_ring env this id1 loc"
| "report env this (Intersection id1 s1 e1 id2 s2 e2 loc) =
     report_intersection env this id1 s1 e1 id2 s2 e2 loc"
| "report env this (Duplicate_segment nr1 nr2) = report_duplicate_segment env this nr1 nr2"
| "report env this (Overlapping_segment nr1 nr2) = report_overlapping_segment env this nr1 nr2"
| "report env this (Ring_not_closed nr way) = report_ring_not_closed env this nr way"
| "report env this (Role_should_be_outer id1 s e) = report_role_should_be_outer env this id1 s e"
| "report env this (Role_should_be_inner id1 s e) = report_role_should_be_inner env this id1 s e"
| "report env this (Way_in_multiple_rings way) = report_way_in_multiple_rings env this way"
| "report env this (Inner_with_same_tags way) = report_inner_with_same_tags env this way"
| "report env this (Duplicate_way way) = report_duplicate_way env this way"
| "report env this (Report_way way) = report_way env this way"

text \<open>
  What a call leaves behind. \<open>added P layer layer'\<close>: the second layer is the first
  with features added at its end, each of them with the property \<open>P\<close>.
  \<open>writes_only P this this'\<close>: the second reporter is the first with such features
  added to its layers, and nothing else changed.
\<close>

definition added :: "(Feature \<Rightarrow> bool) \<Rightarrow> Layer \<Rightarrow> Layer \<Rightarrow> bool" where
  "added P layer layer' \<longleftrightarrow>
     layer' = layer\<lparr>layer_features := layer_features layer'\<rparr>
     \<and> take (length (layer_features layer)) (layer_features layer') = layer_features layer
     \<and> list_all P (drop (length (layer_features layer)) (layer_features layer'))"

definition writes_only ::
  "(Feature \<Rightarrow> bool) \<Rightarrow> ProblemReporterOGR \<Rightarrow> ProblemReporterOGR \<Rightarrow> bool" where
  "writes_only P this this' \<longleftrightarrow>
     m_object_type this' = m_object_type this
     \<and> m_object_id this' = m_object_id this
     \<and> m_nodes this' = m_nodes this
     \<and> added P (m_layer_perror this) (m_layer_perror this')
     \<and> added P (m_layer_lerror this) (m_layer_lerror this')
     \<and> added P (m_layer_ways this) (m_layer_ways this')"

text \<open>The feature records the object of the report with its identifier cut to 32 bits.\<close>

definition obj_id_recorded :: "ProblemReporterOGR \<Rightarrow> Feature \<Rightarrow> bool" where
  "obj_id_recorded this feature \<longleftrightarrow>
     get_field feature ''obj_id'' = Some (FInteger (int32_t (m_object_id this)))"

text \<open>
  Values to run the reporter on: a reporter fresh from its constructor, for the way
  \<open>2 ^ 32 + 5\<close> with two nodes; geometry builders that work, and builders whose
  linestrings fail.
\<close>

definition way0 :: Way where
  "way0 = \<lparr>Way_id = 2 ^ 32 + 5,
      Way_nodes = [\<lparr>NodeRef_ref = 1, NodeRef_location = \<lparr>loc_x = 10, loc_y = 20\<rparr>\<rparr>,
                   \<lparr>NodeRef_ref = 2, NodeRef_location = \<lparr>loc_x = 30, loc_y = 40\<rparr>\<rparr>]\<rparr>"

definition reporter0 :: ProblemReporterOGR where
  "reporter0 = ProblemReporterOGR_ctor
     \<lparr>m_object_type = CHR ''w'', m_object_id = 2 ^ 32 + 5, m_nodes = 2\<rparr>"

definition builders_ok :: geometry_builders where
  "builders_ok =
     \<lparr>create_point = (\<lambda>loc. Inr (OGRPoint (real_of_int (loc_x loc)) (real_of_int (loc_y loc)))),
      create_linestring = (\<lambda>way. Inr (OGRLineString
        (map (\<lambda>nr. (real_of_int (loc_x (NodeRef_location nr)),
                      real_of_int (loc_y (NodeRef_location nr)))) (Way_nodes way)))),
      lon_lat = (\<lambda>loc. Inr (real_of_int (loc_x loc), real_of_int (loc_y loc)))\<rparr>"

definition builders_failing :: geometry_builders where
  "builders_failing =
     builders_ok\<lparr>create_linestring := (\<lambda>way. Inl (geometry_error ''invalid linestring''))\<rparr>"

section \<open>Properties of tags\<close>

subsection \<open>Scanning and comparing C strings\<close>

lemma strchr0_scan:
  "NUL \<notin> set s \<Longrightarrow> strchr0 (pre @ s @ NUL # post) (length pre) = Some (length pre + length s)"
proof (induction s arbitrary: pre)
  case Nil
  show ?case by (simp add: strchr0.simps)
next
  case (Cons c s)
  have step: "strchr0 ((pre @ [c]) @ s @ NUL # post) (length (pre @ [c]))
      = Some (length (pre @ [c]) + length s)"
    using Cons.prems by (intro Cons.IH) simp
  have "strchr0 (pre @ (c # s) @ NUL # post) (length pre)
      = strchr0 (pre @ (c # s) @ NUL # post) (Suc (length pre))"
    using Cons.prems by (subst strchr0.simps) auto
  with step show ?case by simp
qed

lemma c_str_scan:
  "NUL \<notin> set s \<Longrightarrow> c_str (pre @ s @ NUL # post) (length pre) = Some s"
  by (simp add: c_str_def strchr0_scan)

lemma c_str_unfold:
  "c_str mem a = (if length mem \<le> a then None else if mem ! a = NUL then Some []
     else map_option ((#) (mem ! a)) (c_str mem (Suc a)))"
proof (cases "length mem \<le> a")
  case True
  then show ?thesis by (simp add: c_str_def strchr0.simps)
next
  case False
  show ?thesis
  proof (cases "mem ! a = NUL")
    case True
    with False show ?thesis by (simp add: c_str_def strchr0.simps)
  next
    case nz: False
    have s: "strchr0 mem a = strchr0 mem (Suc a)"
      using False nz by (subst strchr0.simps) simp
    show ?thesis
    proof (cases "strchr0 mem (Suc a)")
      case None
      with s False nz show ?thesis by (simp add: c_str_def)
    next
      case (Some q)
      then have "Suc a \<le> q" using strchr0_Some by blast
      then have "q - a = Suc (q - Suc a)" by arith
      then have "take (q - a) (drop a mem) = mem ! a # take (q - Suc a) (drop (Suc a) mem)"
        using False by (simp add: Cons_nth_drop_Suc [symmetric])
      with s Some False nz show ?thesis by (simp add: c_str_def)
    qed
  qed
qed

lemma strcmp_c_str:
  "c_str mem a = Some s \<Longrightarrow> c_str mem b = Some t \<Longrightarrow>
   \<exists>r. strcmp mem a b = Some r \<and> (r = 0 \<longleftrightarrow> s = t)"
proof (induction mem a b arbitrary: s t rule: strcmp.induct)
  case (1 mem s1 s2)
  from "1.prems" have in1: "\<not> length mem \<le> s1" and in2: "\<not> length mem \<le> s2"
    by (auto simp: c_str_unfold [of mem s1] c_str_unfold [of mem s2] split: if_splits)
  show ?case
  proof (cases "mem ! s1 = mem ! s2")
    case False
    then have "(of_char (mem ! s1) :: int) \<noteq> of_char (mem ! s2)"
      by (simp add: inj_of_char [THEN inj_eq])
    moreover have "s \<noteq> t"
      using "1.prems" False in1 in2
      by (auto simp: c_str_unfold [of mem s1] c_str_unfold [of mem s2] split: if_splits)
    ultimately show ?thesis using False in1 in2
      by (subst strcmp.simps) simp
  next
    case eq: True
    show ?thesis
    proof (cases "mem ! s1 = NUL")
      case True
      with eq "1.prems" in1 in2 have "s = []" "t = []"
        by (auto simp: c_str_unfold [of mem s1] c_str_unfold [of mem s2] split: if_splits)
      with True eq in1 in2 show ?thesis by (subst strcmp.simps) simp
    next
      case nz: False
      from "1.prems" nz eq in1 in2 obtain s' t' where
        s': "c_str mem (Suc s1) = Some s'" "s = mem ! s1 # s'" and
        t': "c_str mem (Suc s2) = Some t'" "t = mem ! s2 # t'"
        by (auto simp: c_str_unfold [of mem s1] c_str_unfold [of mem s2] split: if_splits)
      from "1.IH" [OF _ _ _ s'(1) t'(1)] in1 in2 eq nz
      obtain r where "strcmp mem (Suc s1) (Suc s2) = Some r" "(r = 0) = (s' = t')"
        by auto
      with s' t' eq nz in1 in2 show ?thesis by (subst strcmp.simps) simp
    qed
  qed
qed

subsection \<open>One record\<close>

lemma tag_at:
  assumes "NUL \<notin> set k" and "NUL \<notin> set v"
  shows "c_str (pre @ encode_tag (k, v) @ post) (length pre) = Some k"
    and "Tag_after_null (pre @ encode_tag (k, v) @ post) (length pre) = Some (length pre + length k + 1)"
    and "c_str (pre @ encode_tag (k, v) @ post) (length pre + length k + 1) = Some v"
    and "Tag_after_null (pre @ encode_tag (k, v) @ post) (length pre + length k + 1)
           = Some (length pre + length (encode_tag (k, v)))"
proof -
  let ?mem = "pre @ encode_tag (k, v) @ post"
  have m1: "?mem = pre @ k @ NUL # (v @ NUL # post)"
    by (simp add: encode_tag_def)
  have m2: "?mem = (pre @ k @ [NUL]) @ v @ NUL # post"
    by (simp add: encode_tag_def)
  have l: "length pre + length k + 1 = length (pre @ k @ [NUL])"
    by simp
  show "c_str ?mem (length pre) = Some k"
    unfolding m1 using assms(1) by (rule c_str_scan)
  show "Tag_after_null ?mem (length pre) = Some (length pre + length k + 1)"
    unfolding m1 Tag_after_null_def using assms(1) by (simp add: strchr0_scan)
  show "c_str ?mem (length pre + length k + 1) = Some v"
    unfolding m2 l using assms(2) by (rule c_str_scan)
  show "Tag_after_null ?mem (length pre + length k + 1) = Some (length pre + length (encode_tag (k, v)))"
    unfolding m2 l Tag_after_null_def
    by (simp only: strchr0_scan [OF assms(2)] option.map) (simp add: encode_tag_def)
qed

lemma Tag_next_at:
  assumes "NUL \<notin> set k" and "NUL \<notin> set v"
  shows "Tag_next (pre @ encode_tag (k, v) @ post) (length pre)
    = Some (length pre + length (encode_tag (k, v)))"
  using tag_at(2,4) [OF assms, of pre post] by (simp add: Tag_next_def data_def)

text \<open>
  C1. Round trip. A key and a value without null bytes are written one after the other,
  each followed by a null byte, anywhere in a buffer. Then \<open>Tag::key\<close> points at a C
  string that reads back the key, \<open>Tag::value\<close> points at one that reads back the
  value, and the record's size, found by the scan of \<open>Tag::next\<close>, is
  \<open>len(key) + 1 + len(value) + 1\<close>.
\<close>

theorem tag_roundtrip:
  assumes "NUL \<notin> set k" and "NUL \<notin> set v"
  shows "c_str (pre @ encode_tag (k, v) @ post) (Tag_key (length pre)) = Some k
    \<and> Option.bind (Tag_value (pre @ encode_tag (k, v) @ post) (length pre))
           (c_str (pre @ encode_tag (k, v) @ post)) = Some v
    \<and> Tag_next (pre @ encode_tag (k, v) @ post) (length pre)
           = Some (length pre + (length k + 1 + length v + 1))"
proof -
  have "length (encode_tag (k, v)) = length k + 1 + length v + 1"
    by (simp add: encode_tag_def)
  with tag_at [OF assms, of pre post] Tag_next_at [OF assms, of pre post]
  show ?thesis
    by (simp add: Tag_key_def Tag_value_def data_def)
qed

theorem tag_roundtrip_witness:
  "NUL \<notin> set ''name'' \<and> NUL \<notin> set ''Main St''
   \<and> c_str (''xy'' @ encode_tag (''name'', ''Main St'') @ ''z'') (Tag_key (length ''xy''))
       = Some ''name''
   \<and> Option.bind (Tag_value (''xy'' @ encode_tag (''name'', ''Main St'') @ ''z'') (length ''xy''))
         (c_str (''xy'' @ encode_tag (''name'', ''Main St'') @ ''z'')) = Some ''Main St''
   \<and> Tag_next (''xy'' @ encode_tag (''name'', ''Main St'') @ ''z'') (length ''xy'')
       = Some (length ''xy'' + (length ''name'' + 1 + length ''Main St'' + 1))"
proof -
  have k: "NUL \<notin> set ''name''" and v: "NUL \<notin> set ''Main St''"
    by simp_all
  from k v tag_roundtrip [OF k v, of "''xy''" "''z''"] show ?thesis
    by blast
qed

subsection \<open>Iteration\<close>

lemma iterate_encode:
  "well_formed kvs \<Longrightarrow>
   iterate (pre @ encode_tags kvs @ post) (length pre) (length pre + length (encode_tags kvs))
     = Some (record_starts (length pre) kvs)"
proof (induction kvs arbitrary: pre)
  case Nil
  show ?case by (simp add: encode_tags_def iterate.simps)
next
  case (Cons kv kvs)
  obtain k v where kv: "kv = (k, v)" by (cases kv)
  from Cons.prems kv have nk: "NUL \<notin> set k" and nv: "NUL \<notin> set v" and wf: "well_formed kvs"
    by (simp_all add: well_formed_def)
  let ?mem = "pre @ encode_tags (kv # kvs) @ post"
  have mem: "?mem = (pre @ encode_tag kv) @ encode_tags kvs @ post"
    by (simp add: encode_tags_def)
  have nxt: "Tag_next ?mem (length pre) = Some (length (pre @ encode_tag kv))"
    using Tag_next_at [OF nk nv, of pre "encode_tags kvs @ post"]
    by (simp add: encode_tags_def kv)
  have stop: "length pre + length (encode_tags (kv # kvs))
      = length (pre @ encode_tag kv) + length (encode_tags kvs)"
    by (simp add: encode_tags_def)
  have ne: "length pre \<noteq> length pre + length (encode_tags (kv # kvs))"
    by (simp add: encode_tags_def encode_tag_def)
  have "iterate ?mem (length (pre @ encode_tag kv)) (length pre + length (encode_tags (kv # kvs)))
      = Some (record_starts (length (pre @ encode_tag kv)) kvs)"
    unfolding mem stop by (rule Cons.IH [OF wf])
  with nxt ne show ?case
    by (subst iterate.simps) simp
qed

lemma visits_encode:
  "well_formed kvs \<Longrightarrow>
   list_all2 (visits (pre @ encode_tags kvs @ post) (length pre + length (encode_tags kvs)))
     (record_starts (length pre) kvs) kvs"
proof (induction kvs arbitrary: pre)
  case Nil
  show ?case by simp
next
  case (Cons kv kvs)
  obtain k v where kv: "kv = (k, v)" by (cases kv)
  from Cons.prems kv have nk: "NUL \<notin> set k" and nv: "NUL \<notin> set v" and wf: "well_formed kvs"
    by (simp_all add: well_formed_def)
  let ?mem = "pre @ encode_tags (kv # kvs) @ post"
  let ?stop = "length pre + length (encode_tags (kv # kvs))"
  have mem: "?mem = (pre @ encode_tag kv) @ encode_tags kvs @ post"
    by (simp add: encode_tags_def)
  have mem': "?mem = pre @ encode_tag (k, v) @ (encode_tags kvs @ post)"
    by (simp add: encode_tags_def kv)
  have stop: "?stop = length (pre @ encode_tag kv) + length (encode_tags kvs)"
    by (simp add: encode_tags_def)
  have len: "length (encode_tag (k, v)) = length k + 1 + length v + 1"
    by (simp add: encode_tag_def)
  have "visits ?mem ?stop (length pre) kv"
    unfolding visits_def mem'
    using tag_at [OF nk nv, of pre "encode_tags kvs @ post"] Tag_next_at [OF nk nv, of pre "encode_tags kvs @ post"]
    by (simp add: kv len encode_tags_def Tag_key_def Tag_value_def data_def)
  moreover have "list_all2 (visits ?mem ?stop) (record_starts (length (pre @ encode_tag kv)) kvs) kvs"
    unfolding mem stop by (rule Cons.IH [OF wf])
  ultimately show ?case by simp
qed

lemma last_next_encode:
  "well_formed kvs \<Longrightarrow> kvs \<noteq> [] \<Longrightarrow>
   Tag_next (pre @ encode_tags kvs @ post) (last (record_starts (length pre) kvs))
     = Some (length pre + length (encode_tags kvs))"
proof (induction kvs arbitrary: pre)
  case Nil
  then show ?case by simp
next
  case (Cons kv kvs)
  obtain k v where kv: "kv = (k, v)" by (cases kv)
  from Cons.prems kv have nk: "NUL \<notin> set k" and nv: "NUL \<notin> set v" and wf: "well_formed kvs"
    by (simp_all add: well_formed_def)
  let ?mem = "pre @ encode_tags (kv # kvs) @ post"
  have mem: "?mem = (pre @ encode_tag kv) @ encode_tags kvs @ post"
    by (simp add: encode_tags_def)
  have stop: "length pre + length (encode_tags (kv # kvs))
      = length (pre @ encode_tag kv) + length (encode_tags kvs)"
    by (simp add: encode_tags_def)
  show ?case
  proof (cases "kvs = []")
    case True
    with Tag_next_at [OF nk nv, of pre post] show ?thesis
      by (simp add: encode_tags_def kv)
  next
    case False
    then have "record_starts (length pre + length (encode_tag kv)) kvs \<noteq> []"
      by (cases kvs) simp_all
    moreover have "Tag_next ?mem (last (record_starts (length (pre @ encode_tag kv)) kvs))
        = Some (length pre + length (encode_tags (kv # kvs)))"
      unfolding mem stop by (rule Cons.IH [OF wf False])
    ultimately show ?thesis by simp
  qed
qed

lemma iterate_Nil_iff:
  "iterate mem it stop = Some [] \<longleftrightarrow> it = stop"
  by (subst iterate.simps) (simp split: option.splits)

text \<open>
  C2. Forward iteration over a well-formed sequence. The records of \<open>kvs\<close> lie back to
  back from the sequence's start; the end boundary is the address after the last record
  (whatever follows, padding included, lies beyond it). Iterating from the start
  returns, so it terminates, and it visits exactly the addresses of \<open>record_starts\<close>:
  one visit per record written, in write order. At every visited record, \<open>Tag::next\<close>
  is the record's address plus its scanned size, and the record reads back as the pair
  written there. The address computed from the last record is the end boundary, every
  visited address lies before it, and an iteration ends at once exactly when it starts
  at the end boundary. The iteration is a function of the buffer and reads it only, so
  each new iteration of the same sequence gives the same visits.
\<close>

theorem tag_iteration:
  assumes "well_formed kvs"
  shows "iterate (pre @ encode_tags kvs @ post) (length pre) (length pre + length (encode_tags kvs))
        = Some (record_starts (length pre) kvs)
    \<and> length (record_starts (length pre) kvs) = length kvs
    \<and> list_all2 (visits (pre @ encode_tags kvs @ post) (length pre + length (encode_tags kvs)))
        (record_starts (length pre) kvs) kvs
    \<and> (kvs \<noteq> [] \<longrightarrow>
        Tag_next (pre @ encode_tags kvs @ post) (last (record_starts (length pre) kvs))
        = Some (length pre + length (encode_tags kvs)))
    \<and> (\<forall>it. iterate (pre @ encode_tags kvs @ post) it (length pre + length (encode_tags kvs)) = Some []
          \<longleftrightarrow> it = length pre + length (encode_tags kvs))"
proof -
  have "length (record_starts a kvs) = length kvs" for a
    by (induction kvs arbitrary: a) simp_all
  with iterate_encode [OF assms] visits_encode [OF assms] last_next_encode [OF assms]
  show ?thesis
    by (simp add: iterate_Nil_iff)
qed

theorem tag_iteration_witness:
  "well_formed [(''name'', ''Main St''), (''highway'', ''residential'')]
   \<and> iterate (''head'' @ encode_tags [(''name'', ''Main St''), (''highway'', ''residential'')] @ [NUL, NUL, NUL])
        (length ''head'') (length ''head'' + length (encode_tags [(''name'', ''Main St''), (''highway'', ''residential'')]))
      = Some (record_starts (length ''head'') [(''name'', ''Main St''), (''highway'', ''residential'')])
   \<and> record_starts (length ''head'') [(''name'', ''Main St''), (''highway'', ''residential'')] = [4, 17]
   \<and> length (record_starts (length ''head'') [(''name'', ''Main St''), (''highway'', ''residential'')]) = 2
   \<and> list_all2 (visits (''head'' @ encode_tags [(''name'', ''Main St''), (''highway'', ''residential'')] @ [NUL, NUL, NUL])
          (length ''head'' + length (encode_tags [(''name'', ''Main St''), (''highway'', ''residential'')])))
        (record_starts (length ''head'') [(''name'', ''Main St''), (''highway'', ''residential'')])
        [(''name'', ''Main St''), (''highway'', ''residential'')]
   \<and> Tag_next (''head'' @ encode_tags [(''name'', ''Main St''), (''highway'', ''residential'')] @ [NUL, NUL, NUL])
        (last (record_starts (length ''head'') [(''name'', ''Main St''), (''highway'', ''residential'')]))
      = Some (length ''head'' + length (encode_tags [(''name'', ''Main St''), (''highway'', ''residential'')]))"
proof -
  let ?kvs = "[(''name'', ''Main St''), (''highway'', ''residential'')]"
  have wf: "well_formed ?kvs"
    by (simp add: well_formed_def)
  have starts: "record_starts (length ''head'') ?kvs = [4, 17]"
    by (simp add: encode_tag_def)
  have ne: "?kvs \<noteq> []"
    by simp
  note t = tag_iteration [OF wf, of "''head''" "[NUL, NUL, NUL]"]
  from t have a: "iterate (''head'' @ encode_tags ?kvs @ [NUL, NUL, NUL]) (length ''head'')
      (length ''head'' + length (encode_tags ?kvs)) = Some (record_starts (length ''head'') ?kvs)"
    by blast
  from t have b: "length (record_starts (length ''head'') ?kvs) = 2"
    by simp
  from t have c: "list_all2 (visits (''head'' @ encode_tags ?kvs @ [NUL, NUL, NUL])
      (length ''head'' + length (encode_tags ?kvs))) (record_starts (length ''head'') ?kvs) ?kvs"
    by blast
  from t ne have d: "Tag_next (''head'' @ encode_tags ?kvs @ [NUL, NUL, NUL])
      (last (record_starts (length ''head'') ?kvs)) = Some (length ''head'' + length (encode_tags ?kvs))"
    by blast
  from wf a starts b c d show ?thesis
    by (intro conjI)
qed

subsection \<open>Lookup by key\<close>

lemma find_if_encode:
  assumes wf: "well_formed kvs"
    and key: "c_str (pre @ encode_tags kvs @ post) key = Some q"
  shows "case find (\<lambda>kv. fst kv = q) kvs of
      None \<Rightarrow>
        find_if (pre @ encode_tags kvs @ post) (length pre)
          (length pre + length (encode_tags kvs)) key
        = Some (length pre + length (encode_tags kvs))
    | Some kv \<Rightarrow>
        (\<exists>a va. find_if (pre @ encode_tags kvs @ post) (length pre)
            (length pre + length (encode_tags kvs)) key = Some a
          \<and> a < length pre + length (encode_tags kvs)
          \<and> Tag_value (pre @ encode_tags kvs @ post) a = Some va
          \<and> c_str (pre @ encode_tags kvs @ post) va = Some (snd kv))"
  using wf key
proof (induction kvs arbitrary: pre)
  case Nil
  show ?case by (simp add: encode_tags_def find_if.simps)
next
  case (Cons kv kvs)
  obtain k v where kv: "kv = (k, v)" by (cases kv)
  from Cons.prems kv have nk: "NUL \<notin> set k" and nv: "NUL \<notin> set v" and wf: "well_formed kvs"
    by (simp_all add: well_formed_def)
  let ?mem = "pre @ encode_tags (kv # kvs) @ post"
  let ?stop = "length pre + length (encode_tags (kv # kvs))"
  have mem: "?mem = (pre @ encode_tag kv) @ encode_tags kvs @ post"
    by (simp add: encode_tags_def)
  have mem': "?mem = pre @ encode_tag (k, v) @ (encode_tags kvs @ post)"
    by (simp add: encode_tags_def kv)
  have stop: "?stop = length (pre @ encode_tag kv) + length (encode_tags kvs)"
    by (simp add: encode_tags_def)
  have ne: "length pre \<noteq> ?stop" and lt: "length pre < ?stop"
    by (simp_all add: encode_tags_def encode_tag_def)
  have ck: "c_str ?mem (Tag_key (length pre)) = Some k"
    unfolding mem' Tag_key_def data_def by (rule tag_at(1) [OF nk nv])
  from strcmp_c_str [OF ck Cons.prems(2)]
  obtain r where r: "strcmp ?mem (Tag_key (length pre)) key = Some r" "(r = 0) = (k = q)"
    by blast
  show ?case
  proof (cases "k = q")
    case True
    have "find_if ?mem (length pre) ?stop key = Some (length pre)"
      using r True ne by (subst find_if.simps) simp
    moreover have "Tag_value ?mem (length pre) = Some (length pre + length k + 1)"
      unfolding mem' Tag_value_def data_def by (rule tag_at(2) [OF nk nv])
    moreover have "c_str ?mem (length pre + length k + 1) = Some v"
      unfolding mem' by (rule tag_at(3) [OF nk nv])
    ultimately show ?thesis using True lt by (simp add: kv)
  next
    case False
    have nxt: "Tag_next ?mem (length pre) = Some (length (pre @ encode_tag kv))"
      using Tag_next_at [OF nk nv, of pre "encode_tags kvs @ post"]
      by (simp add: encode_tags_def kv)
    have step: "find_if ?mem (length pre) ?stop key
        = find_if ?mem (length (pre @ encode_tag kv)) ?stop key"
      using r False ne nxt by (subst find_if.simps) simp
    have key': "c_str ((pre @ encode_tag kv) @ encode_tags kvs @ post) key = Some q"
      using Cons.prems(2) by (simp add: encode_tags_def)
    from Cons.IH [OF wf key'] False show ?thesis
      unfolding step unfolding mem stop by (simp add: kv)
  qed
qed

text \<open>
  C3. Lookup by key in a well-formed sequence, for a query key that is a C string \<open>q\<close>
  somewhere in the buffer. When some record has the key \<open>q\<close>, the result points at
  the value of the first such record in write order; when none has, and so when the
  sequence is empty, the result is the null pointer.
\<close>

theorem get_value_by_key_first_match:
  assumes "well_formed kvs"
    and "c_str (pre @ encode_tags kvs @ post) key = Some q"
  shows "case find (\<lambda>kv. fst kv = q) kvs of
      None \<Rightarrow>
        get_value_by_key (pre @ encode_tags kvs @ post)
          \<lparr>cbegin = length pre, cend = length pre + length (encode_tags kvs)\<rparr> key
        = Some nullptr
    | Some kv \<Rightarrow>
        (\<exists>a. get_value_by_key (pre @ encode_tags kvs @ post)
            \<lparr>cbegin = length pre, cend = length pre + length (encode_tags kvs)\<rparr> key
          = Some (Ptr a)
          \<and> c_str (pre @ encode_tags kvs @ post) a = Some (snd kv))"
proof (cases "find (\<lambda>kv. fst kv = q) kvs")
  case None
  with find_if_encode [OF assms] show ?thesis
    by (simp add: get_value_by_key_def)
next
  case (Some kv)
  with find_if_encode [OF assms] show ?thesis
    by (auto simp: get_value_by_key_def)
qed

theorem get_value_by_key_first_match_witness:
  "well_formed [(''name'', ''Main St''), (''highway'', ''residential''), (''name'', ''Elm St'')]
   \<and> c_str ((''name'' @ [NUL] @ ''oneway'' @ [NUL])
          @ encode_tags [(''name'', ''Main St''), (''highway'', ''residential''), (''name'', ''Elm St'')]
          @ [NUL]) 0 = Some ''name''
   \<and> (\<exists>a. get_value_by_key ((''name'' @ [NUL] @ ''oneway'' @ [NUL])
          @ encode_tags [(''name'', ''Main St''), (''highway'', ''residential''), (''name'', ''Elm St'')]
          @ [NUL])
          \<lparr>cbegin = length (''name'' @ [NUL] @ ''oneway'' @ [NUL]),
             cend = length (''name'' @ [NUL] @ ''oneway'' @ [NUL])
               + length (encode_tags [(''name'', ''Main St''), (''highway'', ''residential''), (''name'', ''Elm St'')])\<rparr> 0
        = Some (Ptr a)
        \<and> c_str ((''name'' @ [NUL] @ ''oneway'' @ [NUL])
          @ encode_tags [(''name'', ''Main St''), (''highway'', ''residential''), (''name'', ''Elm St'')]
          @ [NUL]) a
          = Some ''Main St'')
   \<and> c_str ((''name'' @ [NUL] @ ''oneway'' @ [NUL])
          @ encode_tags [(''name'', ''Main St''), (''highway'', ''residential''), (''name'', ''Elm St'')]
          @ [NUL]) 5 = Some ''oneway''
   \<and> get_value_by_key ((''name'' @ [NUL] @ ''oneway'' @ [NUL])
          @ encode_tags [(''name'', ''Main St''), (''highway'', ''residential''), (''name'', ''Elm St'')]
          @ [NUL])
          \<lparr>cbegin = length (''name'' @ [NUL] @ ''oneway'' @ [NUL]),
             cend = length (''name'' @ [NUL] @ ''oneway'' @ [NUL])
               + length (encode_tags [(''name'', ''Main St''), (''highway'', ''residential''), (''name'', ''Elm St'')])\<rparr> 5
        = Some nullptr"
proof -
  let ?kvs = "[(''name'', ''Main St''), (''highway'', ''residential''), (''name'', ''Elm St'')]"
  let ?pre = "''name'' @ [NUL] @ ''oneway'' @ [NUL]"
  let ?mem = "?pre @ encode_tags ?kvs @ [NUL]"
  let ?tags = "\<lparr>cbegin = length ?pre, cend = length ?pre + length (encode_tags ?kvs)\<rparr>"
  have wf: "well_formed ?kvs"
    by (simp add: well_formed_def)
  have key: "c_str ?mem 0 = Some ''name''"
    by code_simp
  have key': "c_str ?mem 5 = Some ''oneway''"
    by code_simp
  have first: "find (\<lambda>kv. fst kv = ''name'') ?kvs = Some (''name'', ''Main St'')"
    by simp
  have none: "find (\<lambda>kv. fst kv = ''oneway'') ?kvs = None"
    by simp
  from get_value_by_key_first_match [OF wf key]
  have a: "\<exists>a. get_value_by_key ?mem ?tags 0 = Some (Ptr a) \<and> c_str ?mem a = Some ''Main St''"
    by (simp only: first option.case snd_conv)
  from get_value_by_key_first_match [OF wf key']
  have b: "get_value_by_key ?mem ?tags 5 = Some nullptr"
    by (simp only: none option.case)
  from wf key a key' b show ?thesis
    by (intro conjI)
qed

section \<open>Properties of the file operations\<close>

lemma fstat_Some:
  "fstat os fd = Some st \<longleftrightarrow> (\<exists>len. file_length os fd = Some len \<and> len < 2 ^ 63 \<and> st = word_of_nat len)"
  by (auto simp: fstat_def split: option.splits)

lemma unat_st_size:
  "len < 2 ^ 63 \<Longrightarrow> unat (word_of_nat len :: off_t) = len"
  by (simp add: unat_of_nat)

lemma mod_nonzero_iff:
  "(st :: size_t) mod sz \<noteq> 0 \<longleftrightarrow> \<not> unat sz dvd unat st"
proof -
  have "st mod sz = 0 \<longleftrightarrow> unat (st mod sz) = 0"
    by (simp add: unat_eq_0)
  also have "\<dots> \<longleftrightarrow> unat st mod unat sz = 0"
    by (simp add: unat_mod)
  also have "\<dots> \<longleftrightarrow> unat sz dvd unat st"
    by (simp add: dvd_eq_mod_eq_0)
  finally show ?thesis by simp
qed

lemma fstat_length:
  "fstat os fd = Some st \<Longrightarrow> file_length os fd = Some (unat st)"
  by (auto simp: fstat_Some unat_st_size)

text \<open>
  C5. \<open>file_size\<close> (the spec's \<open>file_element_count\<close>) has exactly three outcomes, and
  which one is decided by the file alone. When \<^verbatim>\<open>fstat\<close> fails it throws
  \<^verbatim>\<open>std::system_error\<close> (MappingError). When \<^verbatim>\<open>fstat\<close> succeeds and the byte length
  is not a multiple of \<open>sizeof(T)\<close> it throws \<^verbatim>\<open>std::length_error\<close>
  (SizeMismatchError), another exception. When \<^verbatim>\<open>fstat\<close> succeeds and the byte length
  is a multiple, it returns the length divided by \<open>sizeof(T)\<close>, and the count times
  \<open>sizeof(T)\<close> is the whole length: no count is ever cut short.
\<close>

theorem file_size_cases:
  assumes "sizeof_T \<noteq> 0"
  shows "(fstat os fd = None
        \<and> file_size sizeof_T os fd = Inl (system_error ''fstat failed''))
    \<or> (\<exists>len. fstat os fd \<noteq> None \<and> file_length os fd = Some len \<and> \<not> unat sizeof_T dvd len
        \<and> file_size sizeof_T os fd
          = Inl (length_error ''file size has to be multiple of object size''))
    \<or> (\<exists>len n. fstat os fd \<noteq> None \<and> file_length os fd = Some len \<and> unat sizeof_T dvd len
        \<and> file_size sizeof_T os fd = Inr n \<and> unat n = len div unat sizeof_T
        \<and> unat n * unat sizeof_T = len)"
proof (cases "fstat os fd")
  case None
  then show ?thesis by (simp add: file_size_def)
next
  case (Some st)
  then have len: "file_length os fd = Some (unat st)"
    by (rule fstat_length)
  show ?thesis
  proof (cases "unat sizeof_T dvd unat st")
    case False
    with Some len show ?thesis
      by (simp add: file_size_def mod_nonzero_iff)
  next
    case True
    then have "st mod sizeof_T = 0"
      using mod_nonzero_iff [of st sizeof_T] by simp
    with Some have "file_size sizeof_T os fd = Inr (st div sizeof_T)"
      by (simp add: file_size_def)
    moreover have "unat (st div sizeof_T) = unat st div unat sizeof_T"
      by (rule unat_div)
    moreover from True have "unat st div unat sizeof_T * unat sizeof_T = unat st"
      by simp
    ultimately show ?thesis using Some len True by simp
  qed
qed

theorem file_size_cases_witness:
  "(8 :: size_t) \<noteq> 0
   \<and> fstat os0 3 \<noteq> None \<and> file_length os0 3 = Some 8 \<and> unat (8 :: size_t) dvd 8
   \<and> (\<exists>n. file_size 8 os0 3 = Inr n \<and> unat n = 8 div unat (8 :: size_t)
         \<and> unat n * unat (8 :: size_t) = 8)"
proof -
  have sz: "(8 :: size_t) \<noteq> 0"
    by simp
  have st: "fstat os0 3 \<noteq> None" and len: "file_length os0 3 = Some 8"
    by (simp_all add: fstat_def os0_def)
  have dv: "unat (8 :: size_t) dvd 8"
    by simp
  from file_size_cases [OF sz, of os0 3] st len
  have "\<exists>n. file_size 8 os0 3 = Inr n \<and> unat n = 8 div unat (8 :: size_t)
         \<and> unat n * unat (8 :: size_t) = 8"
    by auto
  with sz st len dv show ?thesis
    by (intro conjI)
qed

text \<open>
  C9. \<open>grow_file\<close> asks \<open>file_size\<close> first and lets its exceptions through. On a
  file that cannot be stat'ed it throws \<^verbatim>\<open>std::system_error\<close> (MappingError); on a file
  whose byte length is not a multiple of \<open>sizeof(T)\<close> it throws
  \<^verbatim>\<open>std::length_error\<close> (SizeMismatchError). In both cases the system is left as it
  was: no resize has happened.
\<close>

theorem grow_file_propagates:
  "(fstat os fd = None \<longrightarrow>
      grow_file sizeof_T new_size os fd = (Inl (system_error ''fstat failed''), os))
   \<and> (\<forall>len. fstat os fd \<noteq> None \<and> file_length os fd = Some len \<and> \<not> unat sizeof_T dvd len \<longrightarrow>
      grow_file sizeof_T new_size os fd
        = (Inl (length_error ''file size has to be multiple of object size''), os))"
proof (cases "fstat os fd")
  case None
  then show ?thesis by (simp add: grow_file_def file_size_def)
next
  case (Some st)
  then have len: "file_length os fd = Some (unat st)"
    by (rule fstat_length)
  with Some show ?thesis
    by (auto simp: grow_file_def file_size_def mod_nonzero_iff)
qed


theorem grow_file_propagates_witness:
  "fstat os0 5 = None
   \<and> grow_file 8 5 os0 5 = (Inl (system_error ''fstat failed''), os0)
   \<and> fstat os0 4 \<noteq> None \<and> file_length os0 4 = Some 13 \<and> \<not> unat (8 :: size_t) dvd 13
   \<and> grow_file 8 5 os0 4
       = (Inl (length_error ''file size has to be multiple of object size''), os0)"
proof -
  have no: "fstat os0 5 = None"
    by (simp add: fstat_def os0_def)
  have st: "fstat os0 4 \<noteq> None" and len: "file_length os0 4 = Some 13"
    by (simp_all add: fstat_def os0_def)
  have dv: "\<not> unat (8 :: size_t) dvd 13"
    by simp
  note t5 = grow_file_propagates [of os0 5 8 5]
  note t4 = grow_file_propagates [of os0 4 8 5]
  from t5 no have a: "grow_file 8 5 os0 5 = (Inl (system_error ''fstat failed''), os0)"
    by blast
  from t4 st len dv have b: "grow_file 8 5 os0 4
       = (Inl (length_error ''file size has to be multiple of object size''), os0)"
    by blast
  from no a st len dv b show ?thesis
    by (intro conjI)
qed

subsection \<open>Growing a file\<close>

text \<open>
  As long as \<open>sizeof(T) * new_size\<close> fits \<^verbatim>\<open>off_t\<close>, \<open>grow_file\<close> does what its
  comment says: a file that holds fewer elements is extended to exactly
  \<open>sizeof(T) * new_size\<close> bytes, a file that holds enough is left alone, and the file
  is never shrunk.
\<close>

lemma product_fits:
  assumes fit: "unat sizeof_T * unat new_size < 2 ^ 63"
  shows "\<not> sint ((sizeof_T :: size_t) * new_size) < 0"
    and "nat (sint (sizeof_T * new_size)) = unat sizeof_T * unat new_size"
proof -
  have prod: "unat (sizeof_T * new_size) = unat sizeof_T * unat new_size"
    using fit unat_mult_lem [of sizeof_T new_size] by simp
  have "uint (sizeof_T * new_size) < 2 ^ 63"
    using fit prod by (metis of_nat_less_iff of_nat_numeral of_nat_power uint_nat)
  moreover have "0 \<le> uint (sizeof_T * new_size)"
    by simp
  ultimately have "signed_take_bit 63 (uint (sizeof_T * new_size)) = uint (sizeof_T * new_size)"
    by (intro signed_take_bit_int_eq_self) linarith+
  then have si: "sint (sizeof_T * new_size) = uint (sizeof_T * new_size)"
    by (simp add: sint_uint)
  then show "nat (sint (sizeof_T * new_size)) = unat sizeof_T * unat new_size"
    using prod by simp
  show "\<not> sint (sizeof_T * new_size) < 0"
    using si by simp
qed

lemma grow_file_enough:
  assumes len: "file_length os fd = Some len" "len < 2 ^ 63" "unat sizeof_T dvd len"
    and enough: "unat new_size \<le> len div unat sizeof_T"
  shows "grow_file sizeof_T new_size os fd = (Inr (), os)"
proof -
  have st: "fstat os fd = Some (word_of_nat len)"
    using len by (simp add: fstat_def)
  have ul: "unat (word_of_nat len :: off_t) = len"
    using len(2) by (rule unat_st_size)
  have "(word_of_nat len :: off_t) mod sizeof_T = 0"
    using mod_nonzero_iff [of "word_of_nat len" sizeof_T] len(3) ul by simp
  with st have fs: "file_size sizeof_T os fd = Inr (word_of_nat len div sizeof_T)"
    by (simp add: file_size_def)
  have "unat ((word_of_nat len :: off_t) div sizeof_T) = len div unat sizeof_T"
    by (simp add: unat_div ul)
  with enough have "\<not> word_of_nat len div sizeof_T < new_size"
    by (simp add: word_less_nat_alt)
  with fs show ?thesis
    by (simp add: grow_file_def)
qed

lemma grow_file_extends:
  assumes len: "file_length os fd = Some len" "len < 2 ^ 63" "unat sizeof_T dvd len"
    and less: "len div unat sizeof_T < unat new_size"
    and fit: "unat sizeof_T * unat new_size < 2 ^ 63"
    and ok: "\<not> resize_refused os fd (unat sizeof_T * unat new_size)"
  shows "grow_file sizeof_T new_size os fd =
    (Inr (), os\<lparr>file_length := (file_length os)(fd \<mapsto> unat sizeof_T * unat new_size)\<rparr>)"
proof -
  have st: "fstat os fd = Some (word_of_nat len)"
    using len by (simp add: fstat_def)
  have ul: "unat (word_of_nat len :: off_t) = len"
    using len(2) by (rule unat_st_size)
  have "(word_of_nat len :: off_t) mod sizeof_T = 0"
    using mod_nonzero_iff [of "word_of_nat len" sizeof_T] len(3) ul by simp
  with st have fs: "file_size sizeof_T os fd = Inr (word_of_nat len div sizeof_T)"
    by (simp add: file_size_def)
  have "unat ((word_of_nat len :: off_t) div sizeof_T) = len div unat sizeof_T"
    by (simp add: unat_div ul)
  with less have lt: "word_of_nat len div sizeof_T < new_size"
    by (simp add: word_less_nat_alt)
  note nonneg = product_fits(1) [OF fit] and si' = product_fits(2) [OF fit]
  from fs lt nonneg si' ok len(1) show ?thesis
    by (simp add: grow_file_def ftruncate_def)
qed

lemma grow_file_never_shrinks_in_range:
  assumes "file_length os fd = Some len" "len < 2 ^ 63" "unat sizeof_T dvd len"
    and "unat sizeof_T * unat new_size < 2 ^ 63"
    and "grow_file sizeof_T new_size os fd = (r, os')"
  shows "\<exists>len'. file_length os' fd = Some len' \<and> len \<le> len'"
proof (cases "len div unat sizeof_T < unat new_size")
  case False
  then have "unat new_size \<le> len div unat sizeof_T" by simp
  from grow_file_enough [OF assms(1-3) this] assms(1,5) show ?thesis
    by simp
next
  case True
  have "len = len div unat sizeof_T * unat sizeof_T"
    using assms(3) by simp
  also have "\<dots> \<le> unat new_size * unat sizeof_T"
    using True by (intro mult_le_mono1) simp
  finally have le: "len \<le> unat sizeof_T * unat new_size"
    by (simp add: mult.commute)
  show ?thesis
  proof (cases "resize_refused os fd (unat sizeof_T * unat new_size)")
    case False
    from grow_file_extends [OF assms(1-3) True assms(4) False] assms(5) le show ?thesis
      by auto
  next
    case refused: True
    have "os' = os"
      using assms(5) refused product_fits [OF assms(4)]
      by (auto simp: grow_file_def ftruncate_def split: sum.splits if_splits)
    with assms(1) show ?thesis by simp
  qed
qed

lemma grow_file_twice:
  assumes len: "file_length os fd = Some len" "len < 2 ^ 63" "unat sizeof_T dvd len"
    and less: "len div unat sizeof_T < unat n"
    and fit: "unat sizeof_T * unat n < 2 ^ 63"
    and ok: "\<not> resize_refused os fd (unat sizeof_T * unat n)"
    and m: "m < n"
    and sz: "sizeof_T \<noteq> 0"
    and first: "grow_file sizeof_T n os fd = (r, os')"
  shows "r = Inr () \<and> grow_file sizeof_T m os' fd = (Inr (), os')
    \<and> file_length os' fd = Some (unat sizeof_T * unat n)"
proof -
  from grow_file_extends [OF len less fit ok] first
  have r: "r = Inr ()"
    and os': "os' = os\<lparr>file_length := (file_length os)(fd \<mapsto> unat sizeof_T * unat n)\<rparr>"
    by simp_all
  from os' have l': "file_length os' fd = Some (unat sizeof_T * unat n)"
    by simp
  have pos: "0 < unat sizeof_T"
    using sz by (simp add: unat_gt_0)
  have "unat m \<le> unat n"
    using m by (simp add: word_less_nat_alt)
  also have "\<dots> = unat sizeof_T * unat n div unat sizeof_T"
    using pos by simp
  finally have enough: "unat m \<le> unat sizeof_T * unat n div unat sizeof_T" .
  have "grow_file sizeof_T m os' fd = (Inr (), os')"
    by (rule grow_file_enough [OF l' fit _ enough]) simp
  with r l' show ?thesis by simp
qed

text \<open>
  C4. The product \<open>sizeof(T) * new_size\<close> is computed in \<^verbatim>\<open>size_t\<close> and wraps around.
  With elements of 8 bytes, a file of 8 bytes (one element) and \<open>new_size = 2 ^ 61\<close>:
  the file holds fewer than \<open>new_size\<close> elements, the product is \<open>2 ^ 64\<close>, that is
  0, and \<^verbatim>\<open>ftruncate(fd, 0)\<close> cuts the file to no bytes. The call returns normally
  and the file has shrunk, against the claim (and against the comment of
  \<open>grow_file\<close>: ``The file is never shrunk'').
\<close>

theorem grow_file_shrinks_on_overflow:
  "file_length os0 3 = Some 8
   \<and> file_size 8 os0 3 = Inr 1
   \<and> (8 :: size_t) * 2 ^ 61 = 0
   \<and> grow_file 8 (2 ^ 61) os0 3 = (Inr (), os0\<lparr>file_length := (file_length os0)(3 \<mapsto> 0)\<rparr>)"
  by (simp add: grow_file_def file_size_def fstat_def ftruncate_def os0_def)

section \<open>Properties of the reporter\<close>

subsection \<open>The layers\<close>

text \<open>
  C7, as the constructor has it. The reporter defines exactly three layers: \<open>perrors\<close>
  for point problems, \<open>lerrors\<close> for line problems, \<open>ways\<close> for plain ways. Every
  layer has the object type (a string of width 1), the object id and the node count. The
  two problem layers have, besides, two related ids (\<open>id1\<close>, \<open>id2\<close>) and the problem
  label; the layer of ways has one related id (\<open>way_id\<close>) and no problem label.
\<close>

theorem layer_schema:
  "map layer_name (layers (ProblemReporterOGR_ctor base)) = [''perrors'', ''lerrors'', ''ways'']
   \<and> map layer_type (layers (ProblemReporterOGR_ctor base))
       = [wkbPoint, wkbLineString, wkbLineString]
   \<and> map (\<lambda>f. (field_name f, field_type f, field_width f, field_precision f))
         (layer_fields (m_layer_perror (ProblemReporterOGR_ctor base)))
       = [(''obj_type'', OFTString, 1, 0), (''obj_id'', OFTInteger, 10, 0),
          (''nodes'', OFTInteger, 8, 0), (''id1'', OFTReal, 12, 1), (''id2'', OFTReal, 12, 1),
          (''problem'', OFTString, 30, 0)]
   \<and> map (\<lambda>f. (field_name f, field_type f, field_width f, field_precision f))
         (layer_fields (m_layer_lerror (ProblemReporterOGR_ctor base)))
       = [(''obj_type'', OFTString, 1, 0), (''obj_id'', OFTInteger, 10, 0),
          (''nodes'', OFTInteger, 8, 0), (''id1'', OFTReal, 12, 1), (''id2'', OFTReal, 12, 1),
          (''problem'', OFTString, 30, 0)]
   \<and> map (\<lambda>f. (field_name f, field_type f, field_width f, field_precision f))
         (layer_fields (m_layer_ways (ProblemReporterOGR_ctor base)))
       = [(''obj_type'', OFTString, 1, 0), (''obj_id'', OFTInteger, 10, 0),
          (''way_id'', OFTInteger, 10, 0), (''nodes'', OFTInteger, 8, 0)]"
  by (simp add: ProblemReporterOGR_ctor_def layers_def Layer_ctor_def add_field_def)

text \<open>
  C7 as the claim states it asks for a problem label in each of the three layers. The
  layer of ways has none: its fields are the object type, the object id, the way id
  and the node count.
\<close>

theorem ways_layer_without_problem_label:
  "map field_name (layer_fields (m_layer_ways reporter0))
     = [''obj_type'', ''obj_id'', ''way_id'', ''nodes'']
   \<and> ''problem'' \<notin> set (map field_name (layer_fields (m_layer_ways reporter0)))"
  by (simp add: reporter0_def ProblemReporterOGR_ctor_def Layer_ctor_def add_field_def)

subsection \<open>Failures of the geometry\<close>

text \<open>
  C8. Let the factory fail with \<^verbatim>\<open>geometry_error\<close> on the linestring of a way. Each of
  the three reports of a way as a line problem then returns normally and leaves the
  reporter as it was: nothing is written, and the next call runs from the same
  reporter. So does \<open>report_way\<close>, for every way that does not have exactly one node;
  for a way of one node it builds no linestring but reports a point.
\<close>

theorem geometry_error_is_caught:
  assumes "create_linestring env way = Inl (geometry_error msg)"
  shows "report_way_in_multiple_rings env this way = (Inr (), this)
    \<and> report_inner_with_same_tags env this way = (Inr (), this)
    \<and> report_duplicate_way env this way = (Inr (), this)
    \<and> (length (Way_nodes way) \<noteq> 1 \<longrightarrow> report_way env this way = (Inr (), this))
    \<and> (\<forall>next. and_then (report_way_in_multiple_rings env this way) next = next this)
    \<and> (\<forall>next. and_then (report_inner_with_same_tags env this way) next = next this)
    \<and> (\<forall>next. and_then (report_duplicate_way env this way) next = next this)
    \<and> (length (Way_nodes way) \<noteq> 1 \<longrightarrow>
        (\<forall>next. and_then (report_way env this way) next = next this))"
  using assms
  by (simp add: report_way_in_multiple_rings_def report_inner_with_same_tags_def
      report_duplicate_way_def report_way_def and_then_def)

theorem geometry_error_is_caught_witness:
  "create_linestring builders_failing way0 = Inl (geometry_error ''invalid linestring'')
   \<and> length (Way_nodes way0) = 2
   \<and> report_way_in_multiple_rings builders_failing reporter0 way0 = (Inr (), reporter0)
   \<and> report_inner_with_same_tags builders_failing reporter0 way0 = (Inr (), reporter0)
   \<and> report_duplicate_way builders_failing reporter0 way0 = (Inr (), reporter0)
   \<and> report_way builders_failing reporter0 way0 = (Inr (), reporter0)
   \<and> and_then (report_way builders_failing reporter0 way0)
        (\<lambda>this. report_duplicate_node builders_ok this 1 2 \<lparr>loc_x = 10, loc_y = 20\<rparr>)
      = report_duplicate_node builders_ok reporter0 1 2 \<lparr>loc_x = 10, loc_y = 20\<rparr>"
proof -
  have f: "create_linestring builders_failing way0 = Inl (geometry_error ''invalid linestring'')"
    by (simp add: builders_failing_def)
  have n: "length (Way_nodes way0) = 2"
    by (simp add: way0_def)
  then have n1: "length (Way_nodes way0) \<noteq> 1"
    by simp
  note t = geometry_error_is_caught [OF f, of reporter0]
  from t have a: "report_way_in_multiple_rings builders_failing reporter0 way0 = (Inr (), reporter0)"
    and b: "report_inner_with_same_tags builders_failing reporter0 way0 = (Inr (), reporter0)"
    and c: "report_duplicate_way builders_failing reporter0 way0 = (Inr (), reporter0)"
    by blast+
  from t n1 have d: "report_way builders_failing reporter0 way0 = (Inr (), reporter0)"
    by blast
  from t n1 have e: "and_then (report_way builders_failing reporter0 way0)
        (\<lambda>this. report_duplicate_node builders_ok this 1 2 \<lparr>loc_x = 10, loc_y = 20\<rparr>)
      = report_duplicate_node builders_ok reporter0 1 2 \<lparr>loc_x = 10, loc_y = 20\<rparr>"
    by blast
  from f n a b c d e show ?thesis
    by (intro conjI)
qed

subsection \<open>Identifiers in the fields\<close>

lemma sint_int32_t:
  "sint (int32_t v) = signed_take_bit 31 (sint v)"
proof -
  have "sint (ucast v :: 32 word) = signed_take_bit 31 (uint v)"
    by (simp add: signed_ucast_eq)
  also have "\<dots> = signed_take_bit 31 (signed_take_bit 63 (uint v))"
    by simp
  also have "signed_take_bit 63 (uint v) = sint v"
    by (simp add: sint_uint)
  finally show ?thesis
    by (simp add: int32_t_def)
qed

lemma int32_t_faithful_iff:
  "sint (int32_t v) = sint v \<longleftrightarrow> - (2 ^ 31) \<le> sint v \<and> sint v < 2 ^ 31"
  by (simp only: sint_int32_t signed_take_bit_int_eq_self_iff)

lemma bit_length_le_iff:
  "bit_length n \<le> k \<longleftrightarrow> n < 2 ^ k"
proof (induction n arbitrary: k rule: bit_length.induct)
  case (1 n)
  show ?case
  proof (cases "n = 0")
    case True
    then show ?thesis by (simp add: bit_length.simps)
  next
    case False
    show ?thesis
    proof (cases k)
      case 0
      with False show ?thesis by (simp add: bit_length.simps [of n])
    next
      case (Suc k')
      have "n div 2 < 2 ^ k' \<longleftrightarrow> n < 2 ^ Suc k'"
        by (simp add: less_mult_imp_div_less div_less_iff_less_mult mult.commute)
      with "1.IH" [OF False, of k'] False Suc show ?thesis
        by (simp add: bit_length.simps [of n])
    qed
  qed
qed

lemma double_of_nat_exact:
  "n \<le> 2 ^ 53 \<Longrightarrow> double_of_nat n = n"
proof (cases "n < 2 ^ 53")
  case True
  then show ?thesis by (simp add: double_of_nat_def bit_length_le_iff)
next
  case False
  assume "n \<le> 2 ^ 53"
  with False have n: "n = 2 ^ 53" by simp
  have "\<not> bit_length n \<le> 53" "bit_length n \<le> 54" "\<not> bit_length n \<le> 52"
    unfolding bit_length_le_iff n by simp_all
  then have "bit_length n = 54" by simp
  then show ?thesis
    by (simp add: double_of_nat_def round_half_even_def n)
qed

lemma double_of_int64_exact:
  assumes "\<bar>sint v\<bar> \<le> 2 ^ 53"
  shows "double_of_int64 v = real_of_int (sint v)"
proof (cases "sint v < 0")
  case True
  with assms have "nat (- sint v) \<le> 2 ^ 53" by simp
  then have "double_of_nat (nat (- sint v)) = nat (- sint v)"
    by (rule double_of_nat_exact)
  with True show ?thesis by (simp add: double_of_int64_def)
next
  case False
  with assms have "nat (sint v) \<le> 2 ^ 53" by simp
  then have "double_of_nat (nat (sint v)) = nat (sint v)"
    by (rule double_of_nat_exact)
  with False show ?thesis by (simp add: double_of_int64_def)
qed

lemma double_of_int64_inexact:
  "sint (2 ^ 53 + 1 :: object_id_type) = 2 ^ 53 + 1"
  "double_of_int64 (2 ^ 53 + 1) = 2 ^ 53"
proof -
  show s: "sint (2 ^ 53 + 1 :: object_id_type) = 2 ^ 53 + 1"
    by simp
  let ?n = "2 ^ 53 + 1 :: nat"
  have "\<not> bit_length ?n \<le> 53" "bit_length ?n \<le> 54"
    unfolding bit_length_le_iff by simp_all
  then have "bit_length ?n = 54" by simp
  then have "double_of_nat ?n = 2 ^ 53"
    by (simp add: double_of_nat_def round_half_even_def)
  moreover have "nat (sint (2 ^ 53 + 1 :: object_id_type)) = ?n"
    unfolding s by simp
  ultimately show "double_of_int64 (2 ^ 53 + 1) = 2 ^ 53"
    by (simp add: double_of_int64_def s del: sint_numeral)
qed

lemma get_field_set_field:
  "get_field (set_field feature name v) name' = (if name' = name then Some v else get_field feature name')"
  by (simp add: get_field_def set_field_def update_conv')

lemma get_field_set_object:
  "get_field (set_object this feature) ''obj_id'' = Some (FInteger (int32_t (m_object_id this)))"
  by (simp add: set_object_def Let_def get_field_set_field)

lemma added_refl: "added P layer layer"
  by (simp add: added_def)

lemma added_add_to_layer: "P feature \<Longrightarrow> added P layer (add_to_layer layer feature)"
  by (simp add: added_def add_to_layer_def)

lemma added_trans:
  assumes "added P a b" and "added P b c"
  shows "added P a c"
proof -
  let ?n = "length (layer_features a)"
  from assms(1) obtain new1 where b: "layer_features b = layer_features a @ new1" and p1: "list_all P new1"
    and ab: "b = a\<lparr>layer_features := layer_features b\<rparr>"
    unfolding added_def by (metis append_take_drop_id)
  from assms(2) obtain new2 where c: "layer_features c = layer_features b @ new2" and p2: "list_all P new2"
    and bc: "c = b\<lparr>layer_features := layer_features c\<rparr>"
    unfolding added_def by (metis append_take_drop_id)
  have "c = a\<lparr>layer_features := layer_features c\<rparr>"
    by (subst bc, subst ab) simp
  moreover have "layer_features c = layer_features a @ (new1 @ new2)"
    by (simp add: b c)
  ultimately show ?thesis
    using p1 p2 by (simp add: added_def)
qed

lemma writes_only_refl: "writes_only P this this"
  by (simp add: writes_only_def added_refl)

lemma writes_only_trans:
  "writes_only P a b \<Longrightarrow> writes_only P b c \<Longrightarrow> writes_only P a c"
  unfolding writes_only_def by (auto intro: added_trans)

lemma write_point_writes:
  assumes "m_object_id this1 = m_object_id this"
  shows "writes_only (obj_id_recorded this) this1 (snd (write_point env this1 problem_type id1 id2 loc))"
proof (cases "create_point env loc")
  case (Inl e)
  then show ?thesis by (simp add: write_point_def writes_only_refl)
next
  case (Inr g)
  then show ?thesis
    using assms
    by (simp add: write_point_def Let_def writes_only_def added_refl added_add_to_layer
        obj_id_recorded_def get_field_set_field get_field_set_object)
qed

lemma write_line_writes:
  assumes "m_object_id this1 = m_object_id this"
  shows "writes_only (obj_id_recorded this) this1
    (snd (write_line env this1 problem_type id1 id2 loc1 loc2))"
proof (cases "lon_lat env loc1")
  case (Inl e)
  then show ?thesis by (simp add: write_line_def writes_only_refl)
next
  case p1: (Inr p1)
  show ?thesis
  proof (cases "lon_lat env loc2")
    case (Inl e)
    with p1 show ?thesis by (simp add: write_line_def writes_only_refl)
  next
    case (Inr p2)
    with p1 show ?thesis
      using assms
      by (simp add: write_line_def Let_def writes_only_def added_refl added_add_to_layer
          obj_id_recorded_def get_field_set_field get_field_set_object)
  qed
qed

lemma and_then_writes:
  assumes "writes_only P this (snd r)"
    and "\<And>this1. writes_only P this this1 \<Longrightarrow> writes_only P this (snd (f this1))"
  shows "writes_only P this (snd (and_then r f))"
proof (cases r)
  case (Pair res this1)
  with assms show ?thesis
    by (cases res) (simp_all add: and_then_def)
qed

lemma report_intersection_writes:
  "writes_only (obj_id_recorded this) this
     (snd (report_intersection env this id1 s1 e1 id2 s2 e2 loc))"
  unfolding report_intersection_def
proof (intro and_then_writes)
  show "writes_only (obj_id_recorded this) this (snd (write_point env this ''intersection'' id1 id2 loc))"
    by (rule write_point_writes) simp
next
  fix this1 assume w: "writes_only (obj_id_recorded this) this this1"
  then have "m_object_id this1 = m_object_id this" by (simp add: writes_only_def)
  from write_line_writes [OF this] w
  show "writes_only (obj_id_recorded this) this
      (snd (write_line env this1 ''intersection'' id1 id2 s1 e1))"
    by (rule writes_only_trans [rotated])
next
  fix this1 this2 assume w: "writes_only (obj_id_recorded this) this this2"
  then have "m_object_id this2 = m_object_id this" by (simp add: writes_only_def)
  from write_line_writes [OF this] w
  show "writes_only (obj_id_recorded this) this
      (snd (write_line env this2 ''intersection'' id2 id1 s2 e2))"
    by (rule writes_only_trans [rotated])
qed

lemma way_problem_writes:
  "writes_only (obj_id_recorded this) this (snd (report_way_in_multiple_rings env this way))"
  "writes_only (obj_id_recorded this) this (snd (report_inner_with_same_tags env this way))"
  "writes_only (obj_id_recorded this) this (snd (report_duplicate_way env this way))"
  by (auto simp: report_way_in_multiple_rings_def report_inner_with_same_tags_def
      report_duplicate_way_def Let_def writes_only_def added_refl added_add_to_layer
      obj_id_recorded_def get_field_set_field get_field_set_object
      split: sum.splits exception.splits)

lemma report_way_writes:
  "writes_only (obj_id_recorded this) this (snd (report_way env this way))"
proof (cases "length (Way_nodes way) = 1")
  case True
  then show ?thesis
    by (auto simp: report_way_def Let_def intro: write_point_writes)
next
  case False
  then show ?thesis
    by (auto simp: report_way_def Let_def writes_only_def added_refl added_add_to_layer
      obj_id_recorded_def get_field_set_field get_field_set_object
      split: sum.splits exception.splits)
qed

lemma report_writes:
  "writes_only (obj_id_recorded this) this (snd (report env this c))"
proof (cases c)
  case (Intersection id1 s1 e1 id2 s2 e2 loc)
  then show ?thesis by (simp add: report_intersection_writes)
next
  case (Report_way way)
  then show ?thesis by (simp add: report_way_writes)
qed (simp_all add: report_duplicate_node_def report_touching_ring_def
    report_duplicate_segment_def report_overlapping_segment_def report_ring_not_closed_def
    report_role_should_be_outer_def report_role_should_be_inner_def
    write_point_writes write_line_writes way_problem_writes)

lemma write_point_feature:
  assumes "create_point env loc = Inr g"
  shows "\<exists>f. write_point env this problem_type id1 id2 loc
        = (Inr (), this\<lparr>m_layer_perror := add_to_layer (m_layer_perror this) f\<rparr>)
      \<and> get_field f ''obj_id'' = Some (FInteger (int32_t (m_object_id this)))
      \<and> get_field f ''id1'' = Some (FReal (double_of_int64 id1))
      \<and> get_field f ''id2'' = Some (FReal (double_of_int64 id2))"
  unfolding write_point_def Let_def assms sum.case
  by (intro exI conjI, rule refl) (simp_all add: get_field_set_field get_field_set_object)

lemma write_line_feature:
  assumes "lon_lat env loc1 = Inr p1" and "lon_lat env loc2 = Inr p2"
  shows "\<exists>f. write_line env this problem_type id1 id2 loc1 loc2
        = (Inr (), this\<lparr>m_layer_lerror := add_to_layer (m_layer_lerror this) f\<rparr>)
      \<and> get_field f ''obj_id'' = Some (FInteger (int32_t (m_object_id this)))
      \<and> get_field f ''id1'' = Some (FReal (double_of_int64 id1))
      \<and> get_field f ''id2'' = Some (FReal (double_of_int64 id2))"
  unfolding write_line_def Let_def assms sum.case
  by (intro exI conjI, rule refl) (simp_all add: get_field_set_field get_field_set_object)

lemma way_features:
  assumes "2 \<le> length (Way_nodes way)" and "create_linestring env way = Inr g"
  shows "\<exists>f. report_way env this way
        = (Inr (), this\<lparr>m_layer_ways := add_to_layer (m_layer_ways this) f\<rparr>)
      \<and> get_field f ''obj_id'' = Some (FInteger (int32_t (m_object_id this)))
      \<and> get_field f ''way_id'' = Some (FInteger (int32_t (Way_id way)))"
    and "\<exists>f. report_way_in_multiple_rings env this way
        = (Inr (), this\<lparr>m_layer_lerror := add_to_layer (m_layer_lerror this) f\<rparr>)
      \<and> get_field f ''obj_id'' = Some (FInteger (int32_t (m_object_id this)))
      \<and> get_field f ''id1'' = Some (FInteger (int32_t (Way_id way)))"
    and "\<exists>f. report_inner_with_same_tags env this way
        = (Inr (), this\<lparr>m_layer_lerror := add_to_layer (m_layer_lerror this) f\<rparr>)
      \<and> get_field f ''obj_id'' = Some (FInteger (int32_t (m_object_id this)))
      \<and> get_field f ''id1'' = Some (FInteger (int32_t (Way_id way)))"
    and "\<exists>f. report_duplicate_way env this way
        = (Inr (), this\<lparr>m_layer_lerror := add_to_layer (m_layer_lerror this) f\<rparr>)
      \<and> get_field f ''obj_id'' = Some (FInteger (int32_t (m_object_id this)))
      \<and> get_field f ''id1'' = Some (FInteger (int32_t (Way_id way)))"
proof -
  from assms(1) have n: "Way_nodes way \<noteq> []" "length (Way_nodes way) \<noteq> 1" "\<not> length (Way_nodes way) < 2"
    by auto
  have w: "report_way env this way
      = (Inr (), this\<lparr>m_layer_ways := add_to_layer (m_layer_ways this)
          (set_field (set_object this (Feature_ctor g)) ''way_id''
            (FInteger (int32_t (Way_id way))))\<rparr>)"
    using n assms(2) by (simp add: report_way_def Let_def)
  show "\<exists>f. report_way env this way
        = (Inr (), this\<lparr>m_layer_ways := add_to_layer (m_layer_ways this) f\<rparr>)
      \<and> get_field f ''obj_id'' = Some (FInteger (int32_t (m_object_id this)))
      \<and> get_field f ''way_id'' = Some (FInteger (int32_t (Way_id way)))"
    unfolding w
    by (intro exI conjI, rule refl) (simp_all add: get_field_set_field get_field_set_object)
  have e0: "report_way_in_multiple_rings env this way
      = (Inr (), this\<lparr>m_layer_lerror := add_to_layer (m_layer_lerror this)
          (set_field (set_field (set_field (set_object this (Feature_ctor g)) ''id1''
            (FInteger (int32_t (Way_id way)))) ''id2'' (FInteger 0)) ''problem''
            (FString ''way_in_multiple_rings''))\<rparr>)"
    using n assms(2) by (simp add: report_way_in_multiple_rings_def Let_def)
  show "\<exists>f. report_way_in_multiple_rings env this way
        = (Inr (), this\<lparr>m_layer_lerror := add_to_layer (m_layer_lerror this) f\<rparr>)
      \<and> get_field f ''obj_id'' = Some (FInteger (int32_t (m_object_id this)))
      \<and> get_field f ''id1'' = Some (FInteger (int32_t (Way_id way)))"
    unfolding e0
    by (intro exI conjI, rule refl) (simp_all add: get_field_set_field get_field_set_object)
  have e1: "report_inner_with_same_tags env this way
      = (Inr (), this\<lparr>m_layer_lerror := add_to_layer (m_layer_lerror this)
          (set_field (set_field (set_field (set_object this (Feature_ctor g)) ''id1''
            (FInteger (int32_t (Way_id way)))) ''id2'' (FInteger 0)) ''problem''
            (FString ''inner_with_same_tags''))\<rparr>)"
    using n assms(2) by (simp add: report_inner_with_same_tags_def Let_def)
  show "\<exists>f. report_inner_with_same_tags env this way
        = (Inr (), this\<lparr>m_layer_lerror := add_to_layer (m_layer_lerror this) f\<rparr>)
      \<and> get_field f ''obj_id'' = Some (FInteger (int32_t (m_object_id this)))
      \<and> get_field f ''id1'' = Some (FInteger (int32_t (Way_id way)))"
    unfolding e1
    by (intro exI conjI, rule refl) (simp_all add: get_field_set_field get_field_set_object)
  have e2: "report_duplicate_way env this way
      = (Inr (), this\<lparr>m_layer_lerror := add_to_layer (m_layer_lerror this)
          (set_field (set_field (set_field (set_object this (Feature_ctor g)) ''id1''
            (FInteger (int32_t (Way_id way)))) ''id2'' (FInteger 0)) ''problem''
            (FString ''duplicate_way''))\<rparr>)"
    using n assms(2) by (simp add: report_duplicate_way_def Let_def)
  show "\<exists>f. report_duplicate_way env this way
        = (Inr (), this\<lparr>m_layer_lerror := add_to_layer (m_layer_lerror this) f\<rparr>)
      \<and> get_field f ''obj_id'' = Some (FInteger (int32_t (m_object_id this)))
      \<and> get_field f ''id1'' = Some (FInteger (int32_t (Way_id way)))"
    unfolding e2
    by (intro exI conjI, rule refl) (simp_all add: get_field_set_field get_field_set_object)
qed

text \<open>
  C10. Whatever the call, the reporter changes by features added to its layers only,
  and every feature added has, in \<open>obj_id\<close>, the identifier of the object of the report
  cut to 32 bits. A point problem and a line problem record their two related
  identifiers, in \<open>id1\<close> and \<open>id2\<close>, converted to \<^verbatim>\<open>double\<close>. A way that is written
  records its identifier cut to 32 bits, in \<open>way_id\<close> by \<open>report_way\<close> and in \<open>id1\<close> by
  the three reports of a way as a line problem. The cut gives back the identifier
  exactly when the identifier lies in the range of 32 bits; the conversion to
  \<^verbatim>\<open>double\<close> is exact up to \<open>2 ^ 53\<close> in absolute value, and not exact at
  \<open>2 ^ 53 + 1\<close>.
\<close>

theorem identifiers_recorded:
  "(\<forall>c. writes_only (obj_id_recorded this) this (snd (report env this c)))
   \<and> (\<forall>g. create_point env loc = Inr g \<longrightarrow>
        (\<exists>f. write_point env this problem_type id1 id2 loc
            = (Inr (), this\<lparr>m_layer_perror := add_to_layer (m_layer_perror this) f\<rparr>)
          \<and> get_field f ''id1'' = Some (FReal (double_of_int64 id1))
          \<and> get_field f ''id2'' = Some (FReal (double_of_int64 id2))))
   \<and> (\<forall>p1 p2. lon_lat env loc1 = Inr p1 \<and> lon_lat env loc2 = Inr p2 \<longrightarrow>
        (\<exists>f. write_line env this problem_type id1 id2 loc1 loc2
            = (Inr (), this\<lparr>m_layer_lerror := add_to_layer (m_layer_lerror this) f\<rparr>)
          \<and> get_field f ''id1'' = Some (FReal (double_of_int64 id1))
          \<and> get_field f ''id2'' = Some (FReal (double_of_int64 id2))))
   \<and> (\<forall>g. 2 \<le> length (Way_nodes way) \<and> create_linestring env way = Inr g \<longrightarrow>
        (\<exists>f. report_way env this way
            = (Inr (), this\<lparr>m_layer_ways := add_to_layer (m_layer_ways this) f\<rparr>)
          \<and> get_field f ''way_id'' = Some (FInteger (int32_t (Way_id way))))
        \<and> (\<exists>f. report_way_in_multiple_rings env this way
            = (Inr (), this\<lparr>m_layer_lerror := add_to_layer (m_layer_lerror this) f\<rparr>)
          \<and> get_field f ''id1'' = Some (FInteger (int32_t (Way_id way))))
        \<and> (\<exists>f. report_inner_with_same_tags env this way
            = (Inr (), this\<lparr>m_layer_lerror := add_to_layer (m_layer_lerror this) f\<rparr>)
          \<and> get_field f ''id1'' = Some (FInteger (int32_t (Way_id way))))
        \<and> (\<exists>f. report_duplicate_way env this way
            = (Inr (), this\<lparr>m_layer_lerror := add_to_layer (m_layer_lerror this) f\<rparr>)
          \<and> get_field f ''id1'' = Some (FInteger (int32_t (Way_id way)))))
   \<and> (\<forall>v. sint (int32_t v) = sint v \<longleftrightarrow> - (2 ^ 31) \<le> sint v \<and> sint v < 2 ^ 31)
   \<and> (\<forall>v. \<bar>sint v\<bar> \<le> 2 ^ 53 \<longrightarrow> double_of_int64 v = real_of_int (sint v))
   \<and> sint (2 ^ 53 + 1 :: object_id_type) = 2 ^ 53 + 1
   \<and> double_of_int64 (2 ^ 53 + 1) = 2 ^ 53"
proof (intro conjI allI impI)
  fix c show "writes_only (obj_id_recorded this) this (snd (report env this c))"
    by (rule report_writes)
next
  fix g assume "create_point env loc = Inr g"
  from write_point_feature [OF this]
  show "\<exists>f. write_point env this problem_type id1 id2 loc
            = (Inr (), this\<lparr>m_layer_perror := add_to_layer (m_layer_perror this) f\<rparr>)
          \<and> get_field f ''id1'' = Some (FReal (double_of_int64 id1))
          \<and> get_field f ''id2'' = Some (FReal (double_of_int64 id2))"
    by blast
next
  fix p1 p2 assume "lon_lat env loc1 = Inr p1 \<and> lon_lat env loc2 = Inr p2"
  then have "lon_lat env loc1 = Inr p1" "lon_lat env loc2 = Inr p2" by simp_all
  from write_line_feature [OF this]
  show "\<exists>f. write_line env this problem_type id1 id2 loc1 loc2
            = (Inr (), this\<lparr>m_layer_lerror := add_to_layer (m_layer_lerror this) f\<rparr>)
          \<and> get_field f ''id1'' = Some (FReal (double_of_int64 id1))
          \<and> get_field f ''id2'' = Some (FReal (double_of_int64 id2))"
    by blast
next
  fix g assume "2 \<le> length (Way_nodes way) \<and> create_linestring env way = Inr g"
  then have w: "2 \<le> length (Way_nodes way)" "create_linestring env way = Inr g" by simp_all
  from way_features(1) [OF w]
  show "\<exists>f. report_way env this way
            = (Inr (), this\<lparr>m_layer_ways := add_to_layer (m_layer_ways this) f\<rparr>)
          \<and> get_field f ''way_id'' = Some (FInteger (int32_t (Way_id way)))"
    by blast
  from way_features(2) [OF w]
  show "\<exists>f. report_way_in_multiple_rings env this way
            = (Inr (), this\<lparr>m_layer_lerror := add_to_layer (m_layer_lerror this) f\<rparr>)
          \<and> get_field f ''id1'' = Some (FInteger (int32_t (Way_id way)))"
    by blast
  from way_features(3) [OF w]
  show "\<exists>f. report_inner_with_same_tags env this way
            = (Inr (), this\<lparr>m_layer_lerror := add_to_layer (m_layer_lerror this) f\<rparr>)
          \<and> get_field f ''id1'' = Some (FInteger (int32_t (Way_id way)))"
    by blast
  from way_features(4) [OF w]
  show "\<exists>f. report_duplicate_way env this way
            = (Inr (), this\<lparr>m_layer_lerror := add_to_layer (m_layer_lerror this) f\<rparr>)
          \<and> get_field f ''id1'' = Some (FInteger (int32_t (Way_id way)))"
    by blast
next
  fix v show "sint (int32_t v) = sint v \<longleftrightarrow> - (2 ^ 31) \<le> sint v \<and> sint v < 2 ^ 31"
    by (rule int32_t_faithful_iff)
next
  fix v :: object_id_type assume "\<bar>sint v\<bar> \<le> 2 ^ 53"
  then show "double_of_int64 v = real_of_int (sint v)"
    by (rule double_of_int64_exact)
next
  show "sint (2 ^ 53 + 1 :: object_id_type) = 2 ^ 53 + 1"
    by (rule double_of_int64_inexact)
  show "double_of_int64 (2 ^ 53 + 1) = 2 ^ 53"
    by (rule double_of_int64_inexact)
qed

theorem identifiers_recorded_witness:
  "sint (m_object_id reporter0) = 2 ^ 32 + 5
   \<and> sint (Way_id way0) = 2 ^ 32 + 5
   \<and> writes_only (obj_id_recorded reporter0) reporter0
        (snd (report builders_ok reporter0 (Report_way way0)))
   \<and> (\<exists>f. report_way builders_ok reporter0 way0
          = (Inr (), reporter0\<lparr>m_layer_ways := add_to_layer (m_layer_ways reporter0) f\<rparr>)
        \<and> get_field f ''way_id'' = Some (FInteger 5))
   \<and> (\<exists>f. write_point builders_ok reporter0 ''duplicate_node'' (2 ^ 53 + 1) 7
            \<lparr>loc_x = 10, loc_y = 20\<rparr>
          = (Inr (), reporter0\<lparr>m_layer_perror := add_to_layer (m_layer_perror reporter0) f\<rparr>)
        \<and> get_field f ''id1'' = Some (FReal (2 ^ 53))
        \<and> get_field f ''id2'' = Some (FReal 7))
   \<and> (\<exists>f. write_line builders_ok reporter0 ''duplicate_node'' (2 ^ 53 + 1) 7
            \<lparr>loc_x = 10, loc_y = 20\<rparr> \<lparr>loc_x = 30, loc_y = 40\<rparr>
          = (Inr (), reporter0\<lparr>m_layer_lerror := add_to_layer (m_layer_lerror reporter0) f\<rparr>)
        \<and> get_field f ''id1'' = Some (FReal (2 ^ 53))
        \<and> get_field f ''id2'' = Some (FReal 7))
   \<and> (\<exists>f. report_duplicate_way builders_ok reporter0 way0
          = (Inr (), reporter0\<lparr>m_layer_lerror := add_to_layer (m_layer_lerror reporter0) f\<rparr>)
        \<and> get_field f ''id1'' = Some (FInteger 5))
   \<and> sint (int32_t (2 ^ 32 + 5)) \<noteq> sint (2 ^ 32 + 5 :: object_id_type)"
proof -
  note t = identifiers_recorded [of reporter0 builders_ok "\<lparr>loc_x = 10, loc_y = 20\<rparr>"
      "''duplicate_node''" "2 ^ 53 + 1" 7 "\<lparr>loc_x = 10, loc_y = 20\<rparr>"
      "\<lparr>loc_x = 30, loc_y = 40\<rparr>" way0]
  have oid: "sint (m_object_id reporter0) = 2 ^ 32 + 5"
    by (simp add: reporter0_def ProblemReporterOGR_ctor_def)
  have wid: "sint (Way_id way0) = 2 ^ 32 + 5"
    by (simp add: way0_def)
  have n32: "int32_t (Way_id way0) = 5"
    by (simp add: way0_def int32_t_def)
  have d7: "double_of_int64 7 = 7"
    using t by simp
  have d53: "double_of_int64 (2 ^ 53 + 1) = 2 ^ 53"
    using t by blast
  have pt: "create_point builders_ok \<lparr>loc_x = 10, loc_y = 20\<rparr> = Inr (OGRPoint 10 20)"
    by (simp add: builders_ok_def)
  have ls: "2 \<le> length (Way_nodes way0) \<and> create_linestring builders_ok way0
      = Inr (OGRLineString [(10, 20), (30, 40)])"
    by (simp add: builders_ok_def way0_def)
  from t have a: "writes_only (obj_id_recorded reporter0) reporter0
        (snd (report builders_ok reporter0 (Report_way way0)))"
    by blast
  from t ls have "\<exists>f. report_way builders_ok reporter0 way0
          = (Inr (), reporter0\<lparr>m_layer_ways := add_to_layer (m_layer_ways reporter0) f\<rparr>)
        \<and> get_field f ''way_id'' = Some (FInteger (int32_t (Way_id way0)))"
    by blast
  then have b: "\<exists>f. report_way builders_ok reporter0 way0
          = (Inr (), reporter0\<lparr>m_layer_ways := add_to_layer (m_layer_ways reporter0) f\<rparr>)
        \<and> get_field f ''way_id'' = Some (FInteger 5)"
    unfolding n32 .
  from t pt have "\<exists>f. write_point builders_ok reporter0 ''duplicate_node'' (2 ^ 53 + 1) 7
            \<lparr>loc_x = 10, loc_y = 20\<rparr>
          = (Inr (), reporter0\<lparr>m_layer_perror := add_to_layer (m_layer_perror reporter0) f\<rparr>)
        \<and> get_field f ''id1'' = Some (FReal (double_of_int64 (2 ^ 53 + 1)))
        \<and> get_field f ''id2'' = Some (FReal (double_of_int64 7))"
    by blast
  then have c: "\<exists>f. write_point builders_ok reporter0 ''duplicate_node'' (2 ^ 53 + 1) 7
            \<lparr>loc_x = 10, loc_y = 20\<rparr>
          = (Inr (), reporter0\<lparr>m_layer_perror := add_to_layer (m_layer_perror reporter0) f\<rparr>)
        \<and> get_field f ''id1'' = Some (FReal (2 ^ 53))
        \<and> get_field f ''id2'' = Some (FReal 7)"
    unfolding d7 d53 .
  have ll: "lon_lat builders_ok \<lparr>loc_x = 10, loc_y = 20\<rparr> = Inr (10, 20)
      \<and> lon_lat builders_ok \<lparr>loc_x = 30, loc_y = 40\<rparr> = Inr (30, 40)"
    by (simp add: builders_ok_def)
  from t ll have "\<exists>f. write_line builders_ok reporter0 ''duplicate_node'' (2 ^ 53 + 1) 7
            \<lparr>loc_x = 10, loc_y = 20\<rparr> \<lparr>loc_x = 30, loc_y = 40\<rparr>
          = (Inr (), reporter0\<lparr>m_layer_lerror := add_to_layer (m_layer_lerror reporter0) f\<rparr>)
        \<and> get_field f ''id1'' = Some (FReal (double_of_int64 (2 ^ 53 + 1)))
        \<and> get_field f ''id2'' = Some (FReal (double_of_int64 7))"
    by blast
  then have c': "\<exists>f. write_line builders_ok reporter0 ''duplicate_node'' (2 ^ 53 + 1) 7
            \<lparr>loc_x = 10, loc_y = 20\<rparr> \<lparr>loc_x = 30, loc_y = 40\<rparr>
          = (Inr (), reporter0\<lparr>m_layer_lerror := add_to_layer (m_layer_lerror reporter0) f\<rparr>)
        \<and> get_field f ''id1'' = Some (FReal (2 ^ 53))
        \<and> get_field f ''id2'' = Some (FReal 7)"
    unfolding d7 d53 .
  from t ls have "\<exists>f. report_duplicate_way builders_ok reporter0 way0
          = (Inr (), reporter0\<lparr>m_layer_lerror := add_to_layer (m_layer_lerror reporter0) f\<rparr>)
        \<and> get_field f ''id1'' = Some (FInteger (int32_t (Way_id way0)))"
    by blast
  then have b': "\<exists>f. report_duplicate_way builders_ok reporter0 way0
          = (Inr (), reporter0\<lparr>m_layer_lerror := add_to_layer (m_layer_lerror reporter0) f\<rparr>)
        \<and> get_field f ''id1'' = Some (FInteger 5)"
    unfolding n32 .
  from t have "sint (int32_t (2 ^ 32 + 5)) = sint (2 ^ 32 + 5 :: object_id_type)
      \<longleftrightarrow> - (2 ^ 31) \<le> sint (2 ^ 32 + 5 :: object_id_type) \<and> sint (2 ^ 32 + 5 :: object_id_type) < 2 ^ 31"
    by blast
  then have d: "sint (int32_t (2 ^ 32 + 5)) \<noteq> sint (2 ^ 32 + 5 :: object_id_type)"
    by simp
  from oid wid a b c c' b' d show ?thesis
    by (intro conjI)
qed

end
